theory Spec2Isabelle
  imports Complex_Main
begin

section \<open>Numbers, rounding and statistics\<close>

text \<open>
  The program computes with Python floats. They are modelled as exact rationals: the
  decimal value that a float denotes is kept, and the representation error of binary
  floating point is not part of the model. Integers are Python's unbounded integers.
\<close>

type_synonym float = rat

text \<open>
  Python's \<^verbatim>\<open>round(x, ndigits)\<close>: the nearest multiple of \<open>10^-ndigits\<close>, a tie
  going to the even neighbour.
\<close>

definition round_half_even :: "rat \<Rightarrow> int" where
  "round_half_even x =
     (let f = \<lfloor>x\<rfloor>; d = x - of_int f
      in if d < 1 / 2 then f
         else if 1 / 2 < d then f + 1
         else if even f then f else f + 1)"

definition py_round :: "float \<Rightarrow> nat \<Rightarrow> float" where
  "py_round x ndigits = of_int (round_half_even (x * 10 ^ ndigits)) / 10 ^ ndigits"

text \<open>
  \<^verbatim>\<open>statistics.median\<close>: the middle element of the sorted data, the mean of the two
  middle elements when the count is even; it raises on empty data (\<open>None\<close>).
\<close>

definition median :: "float list \<Rightarrow> float option" where
  "median data_in =
     (let data = sort data_in; n = length data
      in if n = 0 then None
         else if n mod 2 = 1 then Some (data ! (n div 2))
         else let i = n div 2 in Some ((data ! (i - 1) + data ! i) / 2))"

text \<open>The builtins \<^verbatim>\<open>min\<close> and \<^verbatim>\<open>max\<close> on a list; they raise on an empty one.\<close>

fun py_min :: "float list \<Rightarrow> float option" where
  "py_min [] = None"
| "py_min (x # xs) = Some (foldl min x xs)"

fun py_max :: "float list \<Rightarrow> float option" where
  "py_max [] = None"
| "py_max (x # xs) = Some (foldl max x xs)"

text \<open>
  \<^verbatim>\<open>range(start, stop, stride)\<close> as the list of the numbers it yields; a zero stride
  raises (\<open>None\<close>).
\<close>

function range_up :: "int \<Rightarrow> int \<Rightarrow> int \<Rightarrow> int list" where
  "range_up n stop stride =
     (if 0 < stride \<and> n < stop then n # range_up (n + stride) stop stride else [])"
  by pat_completeness auto
termination
  by (relation "measure (\<lambda>(n, stop, stride). nat (stop - n))") auto

function range_down :: "int \<Rightarrow> int \<Rightarrow> int \<Rightarrow> int list" where
  "range_down n stop stride =
     (if stride < 0 \<and> stop < n then n # range_down (n + stride) stop stride else [])"
  by pat_completeness auto
termination
  by (relation "measure (\<lambda>(n, stop, stride). nat (n - stop))") auto

declare range_up.simps [simp del] range_down.simps [simp del]

definition py_range :: "int \<Rightarrow> int \<Rightarrow> int \<Rightarrow> int list option" where
  "py_range start stop stride =
     (if stride = 0 then None
      else if 0 < stride then Some (range_up start stop stride)
      else Some (range_down start stop stride))"

section \<open>Errors and the RPC endpoint\<close>

datatype message =
    Bad_blocks_step
  | No_rpc_endpoints
  | Failed_to_connect string
  | No_endpoints_analyzed

text \<open>
  \<open>SystemExit\<close> is what \<^verbatim>\<open>sys.exit(code)\<close> raises, with the line written to stderr
  before it; \<open>Exception\<close> stands for every exception below Python's \<^verbatim>\<open>Exception\<close>
  class, named by its type.
\<close>

datatype error = SystemExit nat message | Exception string

text \<open>
  A block as the program reads it: the key \<^verbatim>\<open>baseFeePerGas\<close> may be absent (or
  \<^verbatim>\<open>None\<close>), and its value is a Python integer.
\<close>

record block =
  baseFeePerGas :: "int option"

text \<open>
  What one endpoint answers during a run: whether the connection check passes, and for
  each request either the value or \<open>None\<close> when the call raises. A block height is
  the unsigned quantity of the JSON-RPC encoding. The answers are functions of the
  request only: an endpoint that answers the same request differently within one run
  is outside the model.
\<close>

record web3 =
  is_connected :: bool
  chain_id :: "int option"
  block_number :: "nat option"
  clientVersion :: "string option"
  get_block :: "int \<Rightarrow> block option"

text \<open>The network: the endpoint reached under a URL with a request timeout.\<close>

type_synonym network = "string \<Rightarrow> float \<Rightarrow> web3"

text \<open>
  \<^verbatim>\<open>Web3.from_wei(n, "gwei")\<close> of the web3 library: zero stays zero, a value outside
  \<open>0 .. 2^256 - 1\<close> raises \<^verbatim>\<open>ValueError\<close>, any other is divided by \<open>10^9\<close> exactly;
  \<^verbatim>\<open>float\<close> of the result is the identity on the model's rationals.
\<close>

definition from_wei_gwei :: "int \<Rightarrow> error + float" where
  "from_wei_gwei number =
     (if number = 0 then Inr 0
      else if number < 0 \<or> 2 ^ 256 - 1 < number then Inl (Exception ''ValueError'')
      else Inr (of_int number / 10 ^ 9))"

section \<open>The program\<close>

definition NETWORKS :: "(int \<times> string) list" where
  "NETWORKS =
     [(1, ''Ethereum Mainnet''),
      (11155111, ''Sepolia Testnet''),
      (10, ''Optimism''),
      (137, ''Polygon''),
      (42161, ''Arbitrum One''),
      (8453, ''Base'')]"

function str_nat :: "nat \<Rightarrow> string" where
  "str_nat n =
     (if n < 10 then [''0123456789'' ! n]
      else str_nat (n div 10) @ [''0123456789'' ! (n mod 10)])"
  by pat_completeness auto
termination
  by (relation "measure id") auto

declare str_nat.simps [simp del]

definition str_int :: "int \<Rightarrow> string" where
  "str_int i = (if i < 0 then ''-'' @ str_nat (nat (- i)) else str_nat (nat i))"

definition network_name :: "int \<Rightarrow> string" where
  "network_name chain_id' =
     (case map_of NETWORKS chain_id' of
        Some name \<Rightarrow> name
      | None \<Rightarrow> ''Unknown (chainId '' @ str_int chain_id' @ '')'')"

text \<open>
  \<^verbatim>\<open>connect\<close>: an endpoint that fails the connection check ends the process with
  status 1. The reads inside the \<^verbatim>\<open>try\<close> only feed a log line, and their failure is
  caught there, so they leave no mark on the result.
\<close>

definition connect :: "network \<Rightarrow> string \<Rightarrow> float \<Rightarrow> error + web3" where
  "connect net rpc timeout =
     (let w3 = net rpc timeout
      in if \<not> is_connected w3 then Inl (SystemExit 1 (Failed_to_connect rpc))
         else Inr w3)"

definition pct_diff :: "float \<Rightarrow> float \<Rightarrow> float" where
  "pct_diff a b = (if b = 0 then 0 else (a - b) / b * 100)"

text \<open>
  The body of the sampling loop for the block numbers still to visit. The state is the
  list of base fees, the counter \<^verbatim>\<open>sampled\<close>, and a log of the block numbers passed to
  \<^verbatim>\<open>get_block\<close> so far (the loop's network effect, kept also when the loop raises).
\<close>

fun sample_loop ::
  "web3 \<Rightarrow> int list \<Rightarrow> float list \<Rightarrow> int \<Rightarrow> int list \<Rightarrow> int list \<times> (error + float list \<times> int)"
where
  "sample_loop w3 [] base_fees sampled fetched = (fetched, Inr (base_fees, sampled))"
| "sample_loop w3 (n # ns) base_fees sampled fetched =
     (case get_block w3 n of
        None \<Rightarrow> sample_loop w3 ns base_fees sampled (fetched @ [n])
      | Some blk \<Rightarrow>
          (let bf_wei = (case baseFeePerGas blk of None \<Rightarrow> 0 | Some v \<Rightarrow> v)
           in if bf_wei = 0 then sample_loop w3 ns base_fees sampled (fetched @ [n])
              else (case from_wei_gwei bf_wei of
                      Inl e \<Rightarrow> (fetched @ [n], Inl e)
                    | Inr g \<Rightarrow>
                        sample_loop w3 ns (base_fees @ [g]) (sampled + 1) (fetched @ [n]))))"

text \<open>
  \<^verbatim>\<open>sample_base_fees\<close> returns \<^verbatim>\<open>(base_fees, head, start, sampled)\<close> or raises; the
  first component of the model's result is the log of fetched block numbers.
\<close>

definition sample_base_fees ::
  "web3 \<Rightarrow> int \<Rightarrow> int \<Rightarrow> int list \<times> (error + float list \<times> int \<times> int \<times> int)"
where
  "sample_base_fees w3 blocks step =
     (case block_number w3 of
        None \<Rightarrow> ([], Inl (Exception ''block_number''))
      | Some h \<Rightarrow>
          (let head = int h; start = max 0 (head - blocks + 1)
           in case py_range head (start - 1) (- step) of
                None \<Rightarrow> ([], Inl (Exception ''ValueError''))
              | Some ns \<Rightarrow>
                  (case sample_loop w3 ns [] 0 [] of
                     (fetched, Inl e) \<Rightarrow> (fetched, Inl e)
                   | (fetched, Inr (base_fees, sampled)) \<Rightarrow>
                       (fetched, Inr (base_fees, head, start, sampled)))))"

record summary =
  rpcUrl :: string
  chainId :: int
  network :: string
  clientVersion_of :: string
  head :: int
  start :: int
  requestedSpan :: int
  step :: int
  sampledBlocks :: int
  baseFeeMedianGwei :: float
  baseFeeMinGwei :: float
  baseFeeMaxGwei :: float
  headBaseFeeGwei :: "float option"
  deviationPct :: "float option"
  isOutlier :: "bool option"

text \<open>
  The head block's fee, read in a \<^verbatim>\<open>try\<close> of its own: any exception of the fetch or of
  the conversion leaves \<^verbatim>\<open>None\<close>.
\<close>

definition head_base_fee :: "web3 \<Rightarrow> int \<Rightarrow> float option" where
  "head_base_fee w3 head' =
     (case get_block w3 head' of
        None \<Rightarrow> None
      | Some head_blk \<Rightarrow>
          (case from_wei_gwei (case baseFeePerGas head_blk of None \<Rightarrow> 0 | Some v \<Rightarrow> v) of
             Inl e \<Rightarrow> None
           | Inr g \<Rightarrow> Some g))"

text \<open>
  The three statistics of lines 110 to 115: of the observations when there are any,
  zero otherwise. On a list that is not empty none of the three calls raises.
\<close>

definition window_stats :: "float list \<Rightarrow> float \<times> float \<times> float" where
  "window_stats base_fees =
     (if base_fees \<noteq> [] then
        (case (median base_fees, py_min base_fees, py_max base_fees) of
           (Some med_bf, Some min_bf, Some max_bf) \<Rightarrow> (med_bf, min_bf, max_bf)
         | _ \<Rightarrow> (0, 0, 0))
      else (0, 0, 0))"

text \<open>
  \<^verbatim>\<open>analyze_endpoint\<close>. The keys \<^verbatim>\<open>deviationPct\<close> and \<^verbatim>\<open>isOutlier\<close> are absent from the
  dictionary it returns; \<^verbatim>\<open>group_by_chain\<close> adds them.
\<close>

definition analyze_endpoint ::
  "network \<Rightarrow> string \<Rightarrow> int \<Rightarrow> int \<Rightarrow> float \<Rightarrow> error + summary"
where
  "analyze_endpoint net rpc blocks step' timeout =
     (case connect net rpc timeout of
        Inl e \<Rightarrow> Inl e
      | Inr w3 \<Rightarrow>
          (case chain_id w3 of
             None \<Rightarrow> Inl (Exception ''chain_id'')
           | Some cid \<Rightarrow>
               (case clientVersion w3 of
                  None \<Rightarrow> Inl (Exception ''clientVersion'')
                | Some client_version \<Rightarrow>
                    (case snd (sample_base_fees w3 blocks step') of
                       Inl e \<Rightarrow> Inl e
                     | Inr (base_fees, head', start', sampled) \<Rightarrow>
                         (let head_bf_gwei = head_base_fee w3 head';
                              (med_bf, min_bf, max_bf) = window_stats base_fees
                          in Inr \<lparr>rpcUrl = rpc,
                                  chainId = cid,
                                  network = network_name cid,
                                  clientVersion_of = client_version,
                                  head = head',
                                  start = start',
                                  requestedSpan = blocks,
                                  step = step',
                                  sampledBlocks = sampled,
                                  baseFeeMedianGwei = py_round med_bf 3,
                                  baseFeeMinGwei = py_round min_bf 3,
                                  baseFeeMaxGwei = py_round max_bf 3,
                                  headBaseFeeGwei = map_option (\<lambda>g. py_round g 3) head_bf_gwei,
                                  deviationPct = None,
                                  isOutlier = None\<rparr>)))))"

record group =
  endpoints :: "summary list"
  globalMedianBaseFeeGwei :: float

text \<open>
  The dictionary \<^verbatim>\<open>groups\<close> keeps its keys in insertion order: an association list
  with one entry for each chain id.
\<close>

type_synonym groups = "(int \<times> group) list"

definition setdefault :: "groups \<Rightarrow> int \<Rightarrow> group \<Rightarrow> groups" where
  "setdefault gs cid d =
     (case map_of gs cid of None \<Rightarrow> gs @ [(cid, d)] | Some g \<Rightarrow> gs)"

definition append_endpoint :: "groups \<Rightarrow> int \<Rightarrow> summary \<Rightarrow> groups" where
  "append_endpoint gs cid ep =
     map (\<lambda>(k, g). if k = cid then (k, g\<lparr>endpoints := endpoints g @ [ep]\<rparr>) else (k, g)) gs"

text \<open>The first loop of \<^verbatim>\<open>group_by_chain\<close> (lines 136 to 139).\<close>

fun group_loop :: "summary list \<Rightarrow> groups \<Rightarrow> groups" where
  "group_loop [] gs = gs"
| "group_loop (ep # eps) gs =
     (let cid = chainId ep;
          gs1 = setdefault gs cid \<lparr>endpoints = [], globalMedianBaseFeeGwei = 0\<rparr>
      in group_loop eps (append_endpoint gs1 cid ep))"

text \<open>The group median \<^verbatim>\<open>g_med\<close> of lines 143 to 147, at full precision.\<close>

definition group_median :: "summary list \<Rightarrow> float" where
  "group_median eps =
     (let med_values = [baseFeeMedianGwei ep. ep \<leftarrow> eps, 0 < baseFeeMedianGwei ep]
      in if med_values \<noteq> [] then (case median med_values of Some m \<Rightarrow> m | None \<Rightarrow> 0)
         else 0)"

text \<open>The deviation \<^verbatim>\<open>dev\<close> of lines 150 to 153, at full precision.\<close>

definition deviation :: "float \<Rightarrow> summary \<Rightarrow> float" where
  "deviation g_med ep =
     (if 0 < g_med \<and> 0 < baseFeeMedianGwei ep then pct_diff (baseFeeMedianGwei ep) g_med
      else 0)"

text \<open>The two keys written into a member's dictionary (lines 154 and 155).\<close>

definition annotate :: "float \<Rightarrow> float \<Rightarrow> summary \<Rightarrow> summary" where
  "annotate g_med tolerance_pct ep =
     (let dev = deviation g_med ep
      in ep\<lparr>deviationPct := Some (py_round dev 2),
             isOutlier := Some (tolerance_pct \<le> \<bar>dev\<bar>)\<rparr>)"

text \<open>The body of the second loop (lines 142 to 155) for one group.\<close>

definition finish_group :: "float \<Rightarrow> int \<times> group \<Rightarrow> int \<times> group" where
  "finish_group tolerance_pct = (\<lambda>(cid, grp).
     (let g_med = group_median (endpoints grp)
      in (cid, \<lparr>endpoints = map (annotate g_med tolerance_pct) (endpoints grp),
                globalMedianBaseFeeGwei = py_round g_med 3\<rparr>)))"

definition group_by_chain :: "summary list \<Rightarrow> float \<Rightarrow> groups" where
  "group_by_chain eps tolerance_pct = map (finish_group tolerance_pct) (group_loop eps [])"

subsection \<open>The command line and the run\<close>

record args =
  arg_rpc :: "string list option"
  arg_blocks :: int
  arg_step :: int
  arg_tolerance_pct :: float
  arg_timeout :: float
  arg_json :: bool

text \<open>\<^verbatim>\<open>str.isspace\<close> on the ASCII characters, and \<^verbatim>\<open>str.strip()\<close>.\<close>

definition isspace :: "char \<Rightarrow> bool" where
  "isspace c = (c \<in> set [CHR '' '', CHR 0x09, CHR 0x0A, CHR 0x0B, CHR 0x0C, CHR 0x0D,
                            CHR 0x1C, CHR 0x1D, CHR 0x1E, CHR 0x1F])"

definition strip :: "string \<Rightarrow> string" where
  "strip s = rev (dropWhile isspace (rev (dropWhile isspace s)))"

text \<open>\<^verbatim>\<open>s.split(",")\<close>.\<close>

fun split_comma :: "string \<Rightarrow> string list" where
  "split_comma [] = [[]]"
| "split_comma (c # cs) =
     (if c = CHR '','' then [] # split_comma cs
      else (case split_comma cs of [] \<Rightarrow> [[c]] | w # ws \<Rightarrow> (c # w) # ws))"

text \<open>\<^verbatim>\<open>load_rpcs_from_env\<close>, from the value of \<^verbatim>\<open>RPC_URLS\<close> (empty when unset).\<close>

definition load_rpcs_from_env :: "string \<Rightarrow> string list" where
  "load_rpcs_from_env rpc_urls =
     (let env_val = strip rpc_urls
      in if env_val = [] then []
         else [strip chunk. chunk \<leftarrow> split_comma env_val, strip chunk \<noteq> []])"

text \<open>
  The loop of lines 248 to 258 over the endpoints still to analyze. A \<open>SystemExit\<close>
  is raised again and ends the run; any other exception is reported and the endpoint
  is skipped. The last argument logs the URLs handed to \<^verbatim>\<open>analyze_endpoint\<close>, the
  only place where the network is used. (\<^verbatim>\<open>KeyboardInterrupt\<close>, a signal from the
  user, is not modelled.)
\<close>

fun analyze_loop ::
  "network \<Rightarrow> args \<Rightarrow> string list \<Rightarrow> summary list \<Rightarrow> string list
     \<Rightarrow> string list \<times> (nat \<times> message + summary list)"
where
  "analyze_loop net a [] eps contacted = (contacted, Inr eps)"
| "analyze_loop net a (rpc # rest) eps contacted =
     (case analyze_endpoint net rpc (arg_blocks a) (arg_step a) (arg_timeout a) of
        Inr ep_summary \<Rightarrow> analyze_loop net a rest (eps @ [ep_summary]) (contacted @ [rpc])
      | Inl (SystemExit code msg) \<Rightarrow> (contacted @ [rpc], Inl (code, msg))
      | Inl (Exception e) \<Rightarrow> analyze_loop net a rest eps (contacted @ [rpc]))"

text \<open>
  How a run ends: the process exits with a status after a line on stderr, or the groups
  are handed to the rendering of the report (lines 265 to 327), which is not modelled.
\<close>

datatype outcome = Exit nat message | Report groups

text \<open>
  \<^verbatim>\<open>main\<close> up to line 264, from the parsed arguments, the value of \<^verbatim>\<open>RPC_URLS\<close> and
  the network. The result pairs the log of contacted URLs with the outcome.
\<close>

definition main :: "network \<Rightarrow> string \<Rightarrow> args \<Rightarrow> string list \<times> outcome" where
  "main net rpc_urls a =
     (if arg_blocks a \<le> 0 \<or> arg_step a \<le> 0 then ([], Exit 1 Bad_blocks_step)
      else
        (let rpc_list0 = (case arg_rpc a of
                            None \<Rightarrow> load_rpcs_from_env rpc_urls
                          | Some rs \<Rightarrow> if rs \<noteq> [] then rs else load_rpcs_from_env rpc_urls);
             rpc_list = [strip r. r \<leftarrow> rpc_list0, r \<noteq> [] \<and> strip r \<noteq> []]
         in if rpc_list = [] then ([], Exit 1 No_rpc_endpoints)
            else
              (case analyze_loop net a rpc_list [] [] of
                 (contacted, Inl (code, msg)) \<Rightarrow> (contacted, Exit code msg)
               | (contacted, Inr eps) \<Rightarrow>
                   if eps = [] then (contacted, Exit 2 No_endpoints_analyzed)
                   else (contacted, Report (group_by_chain eps (arg_tolerance_pct a))))))"

section \<open>Notions used in the proofs\<close>

text \<open>The distinct elements of a list in the order of their first occurrence.\<close>

definition first_seen :: "'a list \<Rightarrow> 'a list" where
  "first_seen xs = rev (remdups (rev xs))"

text \<open>One pass of the first loop of \<^verbatim>\<open>group_by_chain\<close>.\<close>

definition group_step :: "groups \<Rightarrow> summary \<Rightarrow> groups" where
  "group_step gs ep =
     append_endpoint (setdefault gs (chainId ep) \<lparr>endpoints = [], globalMedianBaseFeeGwei = 0\<rparr>)
       (chainId ep) ep"

text \<open>The summaries of one chain, in the order given.\<close>

definition members :: "summary list \<Rightarrow> int \<Rightarrow> summary list" where
  "members eps cid = [e \<leftarrow> eps. chainId e = cid]"

text \<open>A group as the first loop leaves it.\<close>

definition fresh_group :: "summary list \<Rightarrow> int \<Rightarrow> int \<times> group" where
  "fresh_group eps cid = (cid, \<lparr>endpoints = members eps cid, globalMedianBaseFeeGwei = 0\<rparr>)"

text \<open>A group as the second loop leaves it.\<close>

definition finished :: "summary list \<Rightarrow> float \<Rightarrow> int \<Rightarrow> int \<times> group" where
  "finished eps tolerance_pct cid =
     (cid, \<lparr>endpoints = map (annotate (group_median (members eps cid)) tolerance_pct) (members eps cid),
            globalMedianBaseFeeGwei = py_round (group_median (members eps cid)) 3\<rparr>)"

text \<open>The list of URLs that \<^verbatim>\<open>main\<close> builds in lines 221 to 227.\<close>

definition rpc_list_of :: "string \<Rightarrow> args \<Rightarrow> string list" where
  "rpc_list_of rpc_urls a =
     [strip r. r \<leftarrow> (case arg_rpc a of
                      None \<Rightarrow> load_rpcs_from_env rpc_urls
                    | Some rs \<Rightarrow> if rs \<noteq> [] then rs else load_rpcs_from_env rpc_urls),
               r \<noteq> [] \<and> strip r \<noteq> []]"

text \<open>The summaries of the endpoints whose analysis returns, in the order of the URLs.\<close>

definition analyzed :: "network \<Rightarrow> args \<Rightarrow> string list \<Rightarrow> summary list" where
  "analyzed net a rpcs =
     concat (map (\<lambda>rpc. case analyze_endpoint net rpc (arg_blocks a) (arg_step a) (arg_timeout a) of
                          Inr s \<Rightarrow> [s] | Inl e \<Rightarrow> []) rpcs)"

text \<open>
  \<^verbatim>\<open>group_by_chain\<close> writes the two keys into the dictionaries it was given: the
  caller's list after the call, and so the input of a second call.
\<close>

definition annotated :: "summary list \<Rightarrow> float \<Rightarrow> summary list" where
  "annotated eps tolerance_pct =
     map (\<lambda>e. annotate (group_median (members eps (chainId e))) tolerance_pct e) eps"

text \<open>What the grouping and the annotation read of a summary.\<close>

definition key :: "summary \<Rightarrow> int \<times> float" where
  "key e = (chainId e, baseFeeMedianGwei e)"

text \<open>What the pass computes: each chain with its reported median and its members' two keys.\<close>

definition verdicts :: "groups \<Rightarrow> (int \<times> float \<times> (float option \<times> bool option) list) list" where
  "verdicts gs =
     map (\<lambda>(cid, grp). (cid, globalMedianBaseFeeGwei grp,
                         map (\<lambda>e. (deviationPct e, isOutlier e)) (endpoints grp))) gs"

text \<open>The group median and the verdicts as functions of the chain ids and medians alone.\<close>

definition consensus_of :: "float list \<Rightarrow> float" where
  "consensus_of ms =
     (let med_values = filter (\<lambda>m. 0 < m) ms
      in if med_values \<noteq> [] then (case median med_values of Some m \<Rightarrow> m | None \<Rightarrow> 0) else 0)"

definition verdicts_of_keys ::
  "(int \<times> float) list \<Rightarrow> float \<Rightarrow> (int \<times> float \<times> (float option \<times> bool option) list) list"
where
  "verdicts_of_keys ks tolerance_pct =
     map (\<lambda>cid.
            (let ms = map snd (filter (\<lambda>p. fst p = cid) ks); g = consensus_of ms
             in (cid, py_round g 3,
                 map (\<lambda>m. (Some (py_round (if 0 < g \<and> 0 < m then pct_diff m g else 0) 2),
                            Some (tolerance_pct \<le> \<bar>if 0 < g \<and> 0 < m then pct_diff m g else 0\<bar>)))
                   ms)))
       (first_seen (map fst ks))"

section \<open>Example inputs\<close>

text \<open>A summary as \<^verbatim>\<open>analyze_endpoint\<close> returns it, with a given URL, chain and median.\<close>

definition ex_summary :: "string \<Rightarrow> int \<Rightarrow> float \<Rightarrow> summary" where
  "ex_summary url cid m =
     \<lparr>rpcUrl = url, chainId = cid, network = network_name cid, clientVersion_of = ''unknown'',
      head = 100, start = 100, requestedSpan = 1, step = 1, sampledBlocks = 1,
      baseFeeMedianGwei = m, baseFeeMinGwei = m, baseFeeMaxGwei = m,
      headBaseFeeGwei = Some m, deviationPct = None, isOutlier = None\<rparr>"



text \<open>Three endpoints of chain 1 with medians 10.0, 10.5 and 40.0 gwei.\<close>

definition ex_three :: "summary list" where
  "ex_three = [ex_summary ''a'' 1 10, ex_summary ''b'' 1 (21 / 2), ex_summary ''c'' 1 40]"


text \<open>
  A node of chain 1 at height 100 that passes the connection check, with the given
  answers to \<^verbatim>\<open>get_block\<close>.
\<close>

definition ex_node :: "(int \<Rightarrow> block option) \<Rightarrow> web3" where
  "ex_node blocks_of =
     \<lparr>is_connected = True, chain_id = Some 1, block_number = Some 100,
      clientVersion = Some ''unknown'', get_block = blocks_of\<rparr>"

text \<open>
  A network of five endpoints: \<open>a\<close> reports a base fee of \<open>n\<close> gwei for block \<open>n\<close>,
  the blocks of \<open>b\<close> carry no base fee, \<open>c\<close> fails the connection check, \<open>d\<close> cannot
  tell its chain id, and every block fetch of \<open>e\<close> (any other URL) fails.
\<close>

definition ex_net :: network where
  "ex_net rpc timeout =
     (if rpc = ''a'' then ex_node (\<lambda>n. Some \<lparr>baseFeePerGas = Some (n * 10 ^ 9)\<rparr>)
      else if rpc = ''b'' then ex_node (\<lambda>n. Some \<lparr>baseFeePerGas = None\<rparr>)
      else if rpc = ''c'' then (ex_node (\<lambda>n. None))\<lparr>is_connected := False\<rparr>
      else if rpc = ''d'' then (ex_node (\<lambda>n. None))\<lparr>chain_id := None\<rparr>
      else ex_node (\<lambda>n. None))"

text \<open>Arguments with a span of 10 blocks and a stride of 5.\<close>

definition ex_args :: "string list \<Rightarrow> float \<Rightarrow> args" where
  "ex_args rpcs tol =
     \<lparr>arg_rpc = Some rpcs, arg_blocks = 10, arg_step = 5, arg_tolerance_pct = tol,
      arg_timeout = 20, arg_json = False\<rparr>"

text \<open>The summaries of the endpoints \<open>a\<close> and \<open>b\<close> for these arguments.\<close>

definition ex_summary_a :: summary where
  "ex_summary_a =
     \<lparr>rpcUrl = ''a'', chainId = 1, network = ''Ethereum Mainnet'', clientVersion_of = ''unknown'',
      head = 100, start = 91, requestedSpan = 10, step = 5, sampledBlocks = 2,
      baseFeeMedianGwei = 195 / 2, baseFeeMinGwei = 95, baseFeeMaxGwei = 100,
      headBaseFeeGwei = Some 100, deviationPct = None, isOutlier = None\<rparr>"

definition ex_summary_b :: summary where
  "ex_summary_b =
     \<lparr>rpcUrl = ''b'', chainId = 1, network = ''Ethereum Mainnet'', clientVersion_of = ''unknown'',
      head = 100, start = 91, requestedSpan = 10, step = 5, sampledBlocks = 0,
      baseFeeMedianGwei = 0, baseFeeMinGwei = 0, baseFeeMaxGwei = 0,
      headBaseFeeGwei = Some 0, deviationPct = None, isOutlier = None\<rparr>"

text \<open>The group reported for the endpoints \<open>a\<close>, \<open>d\<close>, \<open>e\<close>, \<open>b\<close> with a tolerance of 30.\<close>

definition ex_report_group :: group where
  "ex_report_group =
     \<lparr>endpoints = [ex_summary_a\<lparr>deviationPct := Some 0, isOutlier := Some False\<rparr>,
 ex_summary_a\<lparr>rpcUrl := ''e'', head := 100, sampledBlocks := 0, baseFeeMedianGwei := 0, baseFeeMinGwei := 0, baseFeeMaxGwei := 0, headBaseFeeGwei := None, deviationPct := Some 0, isOutlier := Some False\<rparr>,
 ex_summary_b\<lparr>deviationPct := Some 0, isOutlier := Some False\<rparr>],
                            globalMedianBaseFeeGwei = 195 / 2\<rparr>"

text \<open>The same three endpoints with other URLs, heights and maxima.\<close>

definition ex_three_moved :: "summary list" where
  "ex_three_moved = map (\<lambda>e. e\<lparr>rpcUrl := ''z'', head := 7, baseFeeMaxGwei := 50\<rparr>) ex_three"

section \<open>Rounding and statistics\<close>

lemma round_half_even_bounds:
  "of_int (round_half_even x) \<le> x + 1 / 2" "x - 1 / 2 \<le> of_int (round_half_even x)"
  "\<lfloor>x\<rfloor> \<le> round_half_even x" "round_half_even x \<le> \<lfloor>x\<rfloor> + 1"
  unfolding round_half_even_def Let_def by (auto; linarith)+

lemma round_half_even_mono:
  assumes "x \<le> y"
  shows "round_half_even x \<le> round_half_even y"
proof (cases "\<lfloor>x\<rfloor> = \<lfloor>y\<rfloor>")
  case True
  have "x - of_int \<lfloor>x\<rfloor> \<le> y - of_int \<lfloor>y\<rfloor>"
    using assms True by simp
  then show ?thesis
    unfolding round_half_even_def Let_def using True by auto
next
  case False
  then have "\<lfloor>x\<rfloor> + 1 \<le> \<lfloor>y\<rfloor>"
    using floor_mono [OF assms] by linarith
  then show ?thesis
    using round_half_even_bounds(4) [of x] round_half_even_bounds(3) [of y] by linarith
qed

lemma round_half_even_of_int [simp]: "round_half_even (of_int k) = k"
  by (simp add: round_half_even_def)

lemma py_round_mono: "x \<le> y \<Longrightarrow> py_round x n \<le> py_round y n"
  unfolding py_round_def
  by (intro divide_right_mono round_half_even_mono mult_right_mono iffD2 [OF of_int_le_iff]) simp_all

lemma py_round_zero [simp]: "py_round 0 n = 0"
  using round_half_even_of_int [of 0] by (simp add: py_round_def del: round_half_even_of_int)

lemma py_round_nonneg: "0 \<le> x \<Longrightarrow> 0 \<le> py_round x n"
  using py_round_mono [of 0 x n] by simp

lemma foldl_min_Min: "foldl min x xs = Min (set (x # xs))"
proof (induction xs arbitrary: x)
  case Nil
  show ?case by simp
next
  case (Cons y ys)
  have "Min (set (x # y # ys)) = Min (set (min x y # ys))"
    by (cases "ys = []") (simp_all add: min.assoc Min_insert2 min.commute min.left_commute)
  then show ?case using Cons by simp
qed

lemma foldl_max_Max: "foldl max x xs = Max (set (x # xs))"
proof (induction xs arbitrary: x)
  case Nil
  show ?case by simp
next
  case (Cons y ys)
  have "Max (set (x # y # ys)) = Max (set (max x y # ys))"
    by (cases "ys = []") (simp_all add: max.assoc max.commute max.left_commute)
  then show ?case using Cons by simp
qed

lemma py_min_Min: "xs \<noteq> [] \<Longrightarrow> py_min xs = Some (Min (set xs))"
  by (cases xs) (simp_all add: foldl_min_Min del: set_simps)

lemma py_max_Max: "xs \<noteq> [] \<Longrightarrow> py_max xs = Some (Max (set xs))"
  by (cases xs) (simp_all add: foldl_max_Max del: set_simps)

lemma mean_between:
  fixes a b l u :: rat
  assumes "l \<le> a \<and> a \<le> u" "l \<le> b \<and> b \<le> u"
  shows "l \<le> (a + b) / 2" "(a + b) / 2 \<le> u"
  using assms by (simp_all add: field_simps)

lemma median_bounds:
  assumes "xs \<noteq> []"
  obtains m where "median xs = Some m" "Min (set xs) \<le> m" "m \<le> Max (set xs)"
proof -
  let ?d = "sort xs"
  let ?n = "length ?d"
  have n: "0 < ?n" using assms by simp
  have ne: "?d \<noteq> []" using n by (metis length_greater_0_conv)
  have inb: "Min (set xs) \<le> ?d ! i \<and> ?d ! i \<le> Max (set xs)" if "i < ?n" for i
  proof -
    have "?d ! i \<in> set xs" using that nth_mem [of i ?d] by simp
    then show ?thesis by simp
  qed
  show ?thesis
  proof (cases "?n mod 2 = 1")
    case True
    have c: "?n div 2 < ?n" using n by simp
    have "median xs = Some (?d ! (?n div 2))"
      using True n ne by (simp add: median_def Let_def)
    then show ?thesis using that inb [OF c] by blast
  next
    case False
    then have "2 \<le> ?n" using n by presburger
    then have a: "?n div 2 - 1 < ?n" and b: "?n div 2 < ?n" by simp_all
    have "median xs = Some ((?d ! (?n div 2 - 1) + ?d ! (?n div 2)) / 2)"
      using False n ne by (simp add: median_def Let_def)
    moreover have "Min (set xs) \<le> (?d ! (?n div 2 - 1) + ?d ! (?n div 2)) / 2"
      by (rule mean_between(1) [OF inb [OF a] inb [OF b]])
    moreover have "(?d ! (?n div 2 - 1) + ?d ! (?n div 2)) / 2 \<le> Max (set xs)"
      by (rule mean_between(2) [OF inb [OF a] inb [OF b]])
    ultimately show ?thesis using that by blast
  qed
qed

lemma median_Nil [simp]: "median [] = None"
  by (simp add: median_def)

lemma window_stats_Nil [simp]: "window_stats [] = (0, 0, 0)"
  by (simp add: window_stats_def)

lemma window_stats_ordered:
  assumes "window_stats xs = (med, mn, mx)"
  shows "mn \<le> med \<and> med \<le> mx"
proof (cases "xs = []")
  case True
  with assms show ?thesis by simp
next
  case False
  obtain m where m: "median xs = Some m" "Min (set xs) \<le> m" "m \<le> Max (set xs)"
    using median_bounds [OF False] by blast
  with assms False show ?thesis
    by (auto simp: window_stats_def py_min_Min py_max_Max)
qed

lemma window_stats_pos:
  assumes "window_stats xs = (med, mn, mx)" "\<forall>x\<in>set xs. 0 < x"
  shows "0 \<le> med \<and> 0 \<le> mn \<and> 0 \<le> mx"
proof (cases "xs = []")
  case True
  with assms show ?thesis by simp
next
  case False
  obtain m where m: "median xs = Some m" "Min (set xs) \<le> m" "m \<le> Max (set xs)"
    using median_bounds [OF False] by blast
  have "0 < Min (set xs)" using False assms(2) by simp
  with m assms(1) False show ?thesis
    by (auto simp: window_stats_def py_min_Min py_max_Max)
qed

section \<open>Grouping\<close>

lemma first_seen_snoc:
  "first_seen (xs @ [x]) = (if x \<in> set xs then first_seen xs else first_seen xs @ [x])"
  by (simp add: first_seen_def)

lemma set_first_seen: "set (first_seen xs) = set xs"
  by (simp add: first_seen_def)

lemma distinct_first_seen: "distinct (first_seen xs)"
  by (simp add: first_seen_def)

lemma group_loop_foldl: "group_loop eps gs = foldl group_step gs eps"
  by (induction eps arbitrary: gs) (simp_all add: Let_def group_step_def)

lemma map_of_fresh_groups:
  "map_of (map (fresh_group eps) cs) c = (if c \<in> set cs then Some (snd (fresh_group eps c)) else None)"
  by (induction cs) (auto simp: fresh_group_def)

lemma group_step_fresh:
  "group_step (map (fresh_group eps) (first_seen (map chainId eps))) ep =
   map (fresh_group (eps @ [ep])) (first_seen (map chainId (eps @ [ep])))"
proof (cases "chainId ep \<in> chainId ` set eps")
  case True
  then have "setdefault (map (fresh_group eps) (first_seen (map chainId eps))) (chainId ep)
               \<lparr>endpoints = [], globalMedianBaseFeeGwei = 0\<rparr>
             = map (fresh_group eps) (first_seen (map chainId eps))"
    by (simp add: setdefault_def map_of_fresh_groups set_first_seen)
  with True show ?thesis
    by (auto simp: group_step_def append_endpoint_def first_seen_snoc fresh_group_def members_def)
next
  case False
  then have "setdefault (map (fresh_group eps) (first_seen (map chainId eps))) (chainId ep)
               \<lparr>endpoints = [], globalMedianBaseFeeGwei = 0\<rparr>
             = map (fresh_group eps) (first_seen (map chainId eps))
                 @ [(chainId ep, \<lparr>endpoints = [], globalMedianBaseFeeGwei = 0\<rparr>)]"
    by (simp add: setdefault_def map_of_fresh_groups set_first_seen)
  moreover have "members eps (chainId ep) = []"
    unfolding members_def filter_empty_conv using False by (metis imageI)
  ultimately show ?thesis
    using False
    by (auto simp: group_step_def append_endpoint_def first_seen_snoc fresh_group_def members_def
        set_first_seen)
qed

lemma group_loop_fresh:
  "group_loop eps [] = map (fresh_group eps) (first_seen (map chainId eps))"
proof (induction eps rule: rev_induct)
  case Nil
  show ?case by (simp add: first_seen_def)
next
  case (snoc ep eps)
  have "group_loop (eps @ [ep]) [] = group_step (group_loop eps []) ep"
    by (simp add: group_loop_foldl)
  then show ?case
    using snoc group_step_fresh by simp
qed

lemma group_by_chain_finished:
  "group_by_chain eps tolerance_pct = map (finished eps tolerance_pct) (first_seen (map chainId eps))"
  by (simp add: group_by_chain_def group_loop_fresh finish_group_def fresh_group_def finished_def
      Let_def)

lemma annotate_fields [simp]:
  "baseFeeMedianGwei (annotate g t e) = baseFeeMedianGwei e"
  "baseFeeMinGwei (annotate g t e) = baseFeeMinGwei e"
  "baseFeeMaxGwei (annotate g t e) = baseFeeMaxGwei e"
  "sampledBlocks (annotate g t e) = sampledBlocks e"
  "headBaseFeeGwei (annotate g t e) = headBaseFeeGwei e"
  "chainId (annotate g t e) = chainId e"
  "rpcUrl (annotate g t e) = rpcUrl e"
  "head (annotate g t e) = head e"
  by (simp_all add: annotate_def Let_def)

lemma deviation_annotate [simp]: "deviation g (annotate g' t e) = deviation g e"
  by (simp add: deviation_def)

lemma med_values_filter:
  "[baseFeeMedianGwei ep. ep \<leftarrow> eps, 0 < baseFeeMedianGwei ep]
   = filter (\<lambda>m. 0 < m) (map baseFeeMedianGwei eps)"
  by (induction eps) simp_all

lemma group_median_filter:
  "group_median eps =
     (let med_values = filter (\<lambda>m. 0 < m) (map baseFeeMedianGwei eps)
      in if med_values \<noteq> [] then (case median med_values of Some m \<Rightarrow> m | None \<Rightarrow> 0)
         else 0)"
  unfolding group_median_def med_values_filter by (rule refl)

lemma group_median_annotate [simp]: "group_median (map (annotate g t) eps) = group_median eps"
  by (simp add: group_median_filter comp_def)

lemma group_member:
  assumes "(cid, grp) \<in> set (group_by_chain eps tolerance_pct)"
  shows "cid \<in> chainId ` set eps"
    and "endpoints grp = map (annotate (group_median (members eps cid)) tolerance_pct) (members eps cid)"
    and "globalMedianBaseFeeGwei grp = py_round (group_median (members eps cid)) 3"
    and "group_median (endpoints grp) = group_median (members eps cid)"
  using assms by (auto simp: group_by_chain_finished finished_def set_first_seen)




lemma group_member_elem:
  assumes "(cid, grp) \<in> set (group_by_chain eps tolerance_pct)" "e \<in> set (endpoints grp)"
  obtains e0 where "e0 \<in> set eps" "chainId e0 = cid"
    "e = annotate (group_median (endpoints grp)) tolerance_pct e0"
  using assms group_member(2,4) [OF assms(1)] by (auto simp: members_def)

subsection \<open>Running the pass again\<close>

lemma group_median_consensus_of: "group_median eps = consensus_of (map baseFeeMedianGwei eps)"
  by (simp add: group_median_filter consensus_of_def)

lemma members_map:
  "\<forall>e. chainId (u e) = chainId e \<Longrightarrow> members (map u eps) cid = map u (members eps cid)"
  by (simp add: members_def filter_map comp_def)

lemma group_median_map:
  "\<forall>e. baseFeeMedianGwei (u e) = baseFeeMedianGwei e \<Longrightarrow> group_median (map u eps) = group_median eps"
  by (simp add: group_median_consensus_of comp_def)

lemma annotate_annotate [simp]: "annotate g t (annotate g' t' e) = annotate g t e"
  by (simp add: annotate_def Let_def deviation_def)

lemma group_by_chain_map:
  assumes c: "\<forall>e. chainId (u e) = chainId e"
    and m: "\<forall>e. baseFeeMedianGwei (u e) = baseFeeMedianGwei e"
    and a: "\<forall>e g. annotate g tolerance_pct (u e) = annotate g tolerance_pct e"
  shows "group_by_chain (map u eps) tolerance_pct = group_by_chain eps tolerance_pct"
proof -
  have ids: "map chainId (map u eps) = map chainId eps" using c by simp
  have fin: "finished (map u eps) tolerance_pct = finished eps tolerance_pct"
    using a by (intro ext) (simp add: finished_def members_map [OF c] group_median_map [OF m] comp_def)
  show ?thesis unfolding group_by_chain_finished ids fin by (rule refl)
qed

lemma group_by_chain_annotated:
  "group_by_chain (annotated eps tolerance_pct) tolerance_pct = group_by_chain eps tolerance_pct"
  unfolding annotated_def by (rule group_by_chain_map) simp_all

lemma annotated_annotated:
  "annotated (annotated eps tolerance_pct) tolerance_pct = annotated eps tolerance_pct"
proof -
  let ?u = "\<lambda>e. annotate (group_median (members eps (chainId e))) tolerance_pct e"
  have "group_median (members (map ?u eps) cid) = group_median (members eps cid)" for cid
    by (simp add: members_map group_median_map)
  then show ?thesis by (simp add: annotated_def comp_def)
qed

lemma group_members_annotated:
  assumes "(cid, grp) \<in> set (group_by_chain eps tolerance_pct)"
  shows "endpoints grp = [e \<leftarrow> annotated eps tolerance_pct. chainId e = cid]"
proof -
  have "[e \<leftarrow> annotated eps tolerance_pct. chainId e = cid]
        = map (\<lambda>e. annotate (group_median (members eps (chainId e))) tolerance_pct e) (members eps cid)"
    by (simp add: annotated_def filter_map comp_def members_def)
  also have "\<dots> = map (annotate (group_median (members eps cid)) tolerance_pct) (members eps cid)"
    by (rule map_cong) (simp_all add: members_def)
  finally show ?thesis using group_member(2) [OF assms] by simp
qed

lemma verdicts_keys:
  "verdicts (group_by_chain eps tolerance_pct) = verdicts_of_keys (map key eps) tolerance_pct"
proof -
  have k1: "map fst (map key eps) = map chainId eps"
    by (simp add: key_def comp_def)
  have k2: "map snd (filter (\<lambda>p. fst p = cid) (map key eps)) = map baseFeeMedianGwei (members eps cid)"
    for cid
    by (simp add: key_def filter_map comp_def members_def)
  show ?thesis
    unfolding verdicts_def verdicts_of_keys_def group_by_chain_finished k1 k2
    by (simp add: finished_def comp_def Let_def group_median_consensus_of annotate_def deviation_def)
qed

section \<open>Sampling, summaries and runs\<close>

lemma from_wei_gwei_pos: "from_wei_gwei v = Inr g \<Longrightarrow> v \<noteq> 0 \<Longrightarrow> 0 < g"
  by (auto simp: from_wei_gwei_def split: if_splits)

lemma from_wei_gwei_zero [simp]: "from_wei_gwei 0 = Inr 0"
  by (simp add: from_wei_gwei_def)

lemma sample_loop_inv:
  "sample_loop w3 ns bf s f = (f', Inr (bf', s')) \<Longrightarrow>
     s' - s = int (length bf') - int (length bf) \<and> (\<forall>x\<in>set bf'. x \<in> set bf \<or> 0 < x)"
proof (induction ns arbitrary: bf s f)
  case Nil
  then show ?case by simp
next
  case (Cons n ns)
  show ?case
  proof (cases "get_block w3 n")
    case None
    with Cons.prems have "sample_loop w3 ns bf s (f @ [n]) = (f', Inr (bf', s'))" by simp
    then show ?thesis by (rule Cons.IH)
  next
    case (Some blk)
    let ?v = "case baseFeePerGas blk of None \<Rightarrow> 0 | Some v \<Rightarrow> v"
    show ?thesis
    proof (cases "?v = 0")
      case True
      with Some Cons.prems have "sample_loop w3 ns bf s (f @ [n]) = (f', Inr (bf', s'))"
        by (simp add: Let_def)
      then show ?thesis by (rule Cons.IH)
    next
      case False
      show ?thesis
      proof (cases "from_wei_gwei ?v")
        case (Inl e)
        with Some False Cons.prems show ?thesis by (simp add: Let_def)
      next
        case (Inr g)
        with Some False Cons.prems
        have "sample_loop w3 ns (bf @ [g]) (s + 1) (f @ [n]) = (f', Inr (bf', s'))"
          by (simp add: Let_def)
        from Cons.IH [OF this] from_wei_gwei_pos [OF Inr False] show ?thesis by auto
      qed
    qed
  qed
qed

lemma sample_loop_head_ok:
  assumes "sample_loop w3 (n # ns) bf s f = (f', Inr r)" "get_block w3 n = Some blk"
  shows "\<exists>g. from_wei_gwei (case baseFeePerGas blk of None \<Rightarrow> 0 | Some v \<Rightarrow> v) = Inr g"
  using assms by (cases "from_wei_gwei (case baseFeePerGas blk of None \<Rightarrow> 0 | Some v \<Rightarrow> v)")
    (auto simp: Let_def split: if_splits)

lemma sample_base_fees_Inr:
  assumes "snd (sample_base_fees w3 blocks st) = Inr (bf, h, s, n)"
  obtains k ns f where "block_number w3 = Some k" "h = int k" "s = max 0 (h - blocks + 1)"
    "py_range h (s - 1) (- st) = Some ns" "sample_loop w3 ns [] 0 [] = (f, Inr (bf, n))"
    "n = int (length bf)" "\<forall>x\<in>set bf. 0 < x"
proof -
  from assms obtain k where k: "block_number w3 = Some k"
    by (cases "block_number w3") (auto simp: sample_base_fees_def)
  let ?h = "int k" let ?s = "max 0 (?h - blocks + 1)"
  from assms k obtain ns where ns: "py_range ?h (?s - 1) (- st) = Some ns"
    by (cases "py_range ?h (?s - 1) (- st)") (auto simp: sample_base_fees_def Let_def)
  obtain f r where r: "sample_loop w3 ns [] 0 [] = (f, r)" by (cases "sample_loop w3 ns [] 0 []")
  from assms k ns r have eq: "r = Inr (bf, n)" "h = ?h" "s = ?s"
    by (auto simp: sample_base_fees_def Let_def split: sum.splits prod.splits)
  from sample_loop_inv [OF r [unfolded eq(1)]] have "n = int (length bf)" "\<forall>x\<in>set bf. 0 < x"
    by auto
  with that k ns r eq show ?thesis by blast
qed

lemma analyze_endpoint_Inr:
  assumes "analyze_endpoint net rpc blocks st timeout = Inr s"
  obtains cid cv bf where
    "is_connected (net rpc timeout)" "chain_id (net rpc timeout) = Some cid"
    "clientVersion (net rpc timeout) = Some cv"
    "snd (sample_base_fees (net rpc timeout) blocks st) = Inr (bf, head s, start s, sampledBlocks s)"
    "rpcUrl s = rpc" "chainId s = cid"
    "baseFeeMedianGwei s = py_round (fst (window_stats bf)) 3"
    "baseFeeMinGwei s = py_round (fst (snd (window_stats bf))) 3"
    "baseFeeMaxGwei s = py_round (snd (snd (window_stats bf))) 3"
    "headBaseFeeGwei s = map_option (\<lambda>g. py_round g 3) (head_base_fee (net rpc timeout) (head s))"
    "deviationPct s = None" "isOutlier s = None"
proof -
  let ?w = "net rpc timeout"
  from assms have c: "is_connected ?w"
    by (auto simp: analyze_endpoint_def connect_def Let_def split: if_splits)
  then have conn: "connect net rpc timeout = Inr ?w" by (simp add: connect_def)
  from assms conn obtain cid where cid: "chain_id ?w = Some cid"
    by (cases "chain_id ?w") (auto simp: analyze_endpoint_def)
  from assms conn cid obtain cv where cv: "clientVersion ?w = Some cv"
    by (cases "clientVersion ?w") (auto simp: analyze_endpoint_def)
  from assms conn cid cv obtain bf h st' n where
    sm: "snd (sample_base_fees ?w blocks st) = Inr (bf, h, st', n)"
    by (cases "snd (sample_base_fees ?w blocks st)") (auto simp: analyze_endpoint_def)
  obtain med mn mx where ws: "window_stats bf = (med, mn, mx)" by (cases "window_stats bf")
  from assms conn cid cv sm ws have
    s: "s = \<lparr>rpcUrl = rpc, chainId = cid, network = network_name cid, clientVersion_of = cv,
            head = h, start = st', requestedSpan = blocks, step = st, sampledBlocks = n,
            baseFeeMedianGwei = py_round med 3, baseFeeMinGwei = py_round mn 3,
            baseFeeMaxGwei = py_round mx 3,
            headBaseFeeGwei = map_option (\<lambda>g. py_round g 3) (head_base_fee ?w h),
            deviationPct = None, isOutlier = None\<rparr>"
    by (simp add: analyze_endpoint_def Let_def)
  show ?thesis
    by (rule that [of cid cv bf]) (use c cid cv sm ws s in simp_all)
qed

lemma summary_statistics_zero:
  assumes "analyze_endpoint net rpc blocks st timeout = Inr s" "sampledBlocks s = 0"
  shows "baseFeeMedianGwei s = 0" "baseFeeMinGwei s = 0" "baseFeeMaxGwei s = 0"
proof -
  from assms(1) obtain bf where
    sm: "snd (sample_base_fees (net rpc timeout) blocks st) = Inr (bf, head s, start s, sampledBlocks s)"
    and f: "baseFeeMedianGwei s = py_round (fst (window_stats bf)) 3"
      "baseFeeMinGwei s = py_round (fst (snd (window_stats bf))) 3"
      "baseFeeMaxGwei s = py_round (snd (snd (window_stats bf))) 3"
    by (rule analyze_endpoint_Inr)
  from sm have "sampledBlocks s = int (length bf)"
    by (rule sample_base_fees_Inr)
  with assms(2) f show "baseFeeMedianGwei s = 0" "baseFeeMinGwei s = 0" "baseFeeMaxGwei s = 0"
    by simp_all
qed

lemma analyze_endpoint_median_nonneg:
  assumes "analyze_endpoint net rpc blocks st timeout = Inr s"
  shows "0 \<le> baseFeeMedianGwei s"
proof -
  from assms obtain bf where
    sm: "snd (sample_base_fees (net rpc timeout) blocks st) = Inr (bf, head s, start s, sampledBlocks s)"
    and f: "baseFeeMedianGwei s = py_round (fst (window_stats bf)) 3"
    by (rule analyze_endpoint_Inr)
  from sm have p: "\<forall>x\<in>set bf. 0 < x" by (rule sample_base_fees_Inr)
  obtain med mn mx where ws: "window_stats bf = (med, mn, mx)" by (cases "window_stats bf")
  from window_stats_pos [OF ws p] f ws show ?thesis by (simp add: py_round_nonneg)
qed

lemma py_range_down:
  "0 < st \<Longrightarrow> py_range h stop (- st) = Some (range_down h stop (- st))"
  by (simp add: py_range_def)

lemma range_down_first:
  "0 < st \<Longrightarrow> stop < h \<Longrightarrow> range_down h stop (- st) = h # range_down (h - st) stop (- st)"
  by (subst range_down.simps) simp

lemma analyze_loop_Inr:
  "analyze_loop net a rpcs eps lg = (lg', Inr eps') \<Longrightarrow>
     \<forall>s\<in>set eps'. s \<in> set eps \<or>
       (\<exists>rpc\<in>set rpcs. analyze_endpoint net rpc (arg_blocks a) (arg_step a) (arg_timeout a) = Inr s)"
proof (induction rpcs arbitrary: eps lg)
  case Nil
  then show ?case by simp
next
  case (Cons rpc rest)
  show ?case
  proof (cases "analyze_endpoint net rpc (arg_blocks a) (arg_step a) (arg_timeout a)")
    case (Inr s)
    with Cons.prems have "analyze_loop net a rest (eps @ [s]) (lg @ [rpc]) = (lg', Inr eps')"
      by simp
    from Cons.IH [OF this] Inr show ?thesis by auto
  next
    case (Inl e)
    show ?thesis
    proof (cases e)
      case (SystemExit code msg)
      with Inl Cons.prems show ?thesis by simp
    next
      case (Exception x)
      with Inl Cons.prems have "analyze_loop net a rest eps (lg @ [rpc]) = (lg', Inr eps')"
        by simp
      from Cons.IH [OF this] show ?thesis by auto
    qed
  qed
qed

lemma main_Report:
  assumes "main net rpc_urls a = (lg, Report gs)"
  obtains eps where "eps \<noteq> []" "gs = group_by_chain eps (arg_tolerance_pct a)"
    "0 < arg_blocks a" "0 < arg_step a"
    "\<forall>s\<in>set eps. \<exists>rpc. analyze_endpoint net rpc (arg_blocks a) (arg_step a) (arg_timeout a) = Inr s"
proof -
  let ?l0 = "case arg_rpc a of None \<Rightarrow> load_rpcs_from_env rpc_urls
             | Some rs \<Rightarrow> if rs \<noteq> [] then rs else load_rpcs_from_env rpc_urls"
  let ?l = "[strip r. r \<leftarrow> ?l0, r \<noteq> [] \<and> strip r \<noteq> []]"
  from assms have pos: "0 < arg_blocks a" "0 < arg_step a"
    by (auto simp: main_def split: if_splits)
  from assms pos have ne: "?l \<noteq> []"
    by (auto simp: main_def Let_def split: if_splits)
  obtain lg' r where r: "analyze_loop net a ?l [] [] = (lg', r)"
    by (cases "analyze_loop net a ?l [] []")
  from assms pos ne r obtain eps where eps: "r = Inr eps" "eps \<noteq> []"
    "gs = group_by_chain eps (arg_tolerance_pct a)"
    by (cases r) (auto simp: main_def Let_def split: if_splits)
  from analyze_loop_Inr [OF r [unfolded eps(1)]]
  have "\<forall>s\<in>set eps. \<exists>rpc. analyze_endpoint net rpc (arg_blocks a) (arg_step a) (arg_timeout a) = Inr s"
    by auto
  with that eps pos show ?thesis by blast
qed

subsection \<open>The blocks the sampler fetches\<close>

lemma range_down_map:
  "stride < 0 \<Longrightarrow>
     range_down n stop stride = map (\<lambda>i. n + int i * stride) [0..<length (range_down n stop stride)]"
proof (induction n stop stride rule: range_down.induct)
  case (1 n stop stride)
  show ?case
  proof (cases "stop < n")
    case False
    then show ?thesis by (subst (1 2) range_down.simps) simp
  next
    case True
    let ?r = "range_down (n + stride) stop stride"
    have u: "range_down n stop stride = n # ?r"
      using True "1.prems" by (subst range_down.simps) simp
    have ih: "?r = map (\<lambda>i. n + stride + int i * stride) [0..<length ?r]"
      using "1.IH" True "1.prems" by simp
    have "map (\<lambda>i. n + int i * stride) [0..<Suc (length ?r)]
          = n # map (\<lambda>i. n + int (Suc i) * stride) [0..<length ?r]"
      by (simp add: upt_conv_Cons map_Suc_upt [symmetric] del: upt_Suc)
    also have "\<dots> = n # map (\<lambda>i. n + stride + int i * stride) [0..<length ?r]"
      by (simp add: algebra_simps)
    also have "\<dots> = n # ?r" using ih by simp
    finally show ?thesis using u by simp
  qed
qed

lemma range_down_set:
  "stride < 0 \<Longrightarrow>
     set (range_down n stop stride) = {m. stop < m \<and> (\<exists>i::nat. m = n + int i * stride)}"
proof (induction n stop stride rule: range_down.induct)
  case (1 n stop stride)
  show ?case
  proof (cases "stop < n")
    case False
    have le: "n + int i * stride \<le> stop" for i :: nat
    proof -
      have "int i * stride \<le> 0" using "1.prems" by (simp add: mult_nonneg_nonpos)
      with False show ?thesis by simp
    qed
    have "{m. stop < m \<and> (\<exists>i::nat. m = n + int i * stride)} = {}"
    proof -
      have False if "stop < m" "m = n + int i * stride" for m and i :: nat
        using that le [of i] by simp
      then show ?thesis by blast
    qed
    moreover have "range_down n stop stride = []"
      using False by (subst range_down.simps) simp
    ultimately show ?thesis by simp
  next
    case True
    let ?r = "range_down (n + stride) stop stride"
    have u: "range_down n stop stride = n # ?r"
      using True "1.prems" by (subst range_down.simps) simp
    have ih: "set ?r = {m. stop < m \<and> (\<exists>i::nat. m = n + stride + int i * stride)}"
      using "1.IH" True "1.prems" by simp
    have "{m. stop < m \<and> (\<exists>i::nat. m = n + int i * stride)}
          = insert n {m. stop < m \<and> (\<exists>i::nat. m = n + stride + int i * stride)}"
    proof (intro set_eqI iffI)
      fix m assume "m \<in> {m. stop < m \<and> (\<exists>i::nat. m = n + int i * stride)}"
      then obtain i :: nat where m: "stop < m" "m = n + int i * stride" by blast
      show "m \<in> insert n {m. stop < m \<and> (\<exists>i::nat. m = n + stride + int i * stride)}"
      proof (cases i)
        case 0
        with m show ?thesis by simp
      next
        case (Suc j)
        with m have "m = n + stride + int j * stride" by (simp add: algebra_simps)
        with m(1) show ?thesis by blast
      qed
    next
      fix m assume "m \<in> insert n {m. stop < m \<and> (\<exists>i::nat. m = n + stride + int i * stride)}"
      then consider "m = n" | j :: nat where "stop < m" "m = n + stride + int j * stride" by blast
      then show "m \<in> {m. stop < m \<and> (\<exists>i::nat. m = n + int i * stride)}"
      proof cases
        case 1
        then have "m = n + int 0 * stride" by simp
        with True 1 show ?thesis by blast
      next
        case 2
        then have "m = n + int (Suc j) * stride" by (simp add: algebra_simps)
        with 2(1) show ?thesis by blast
      qed
    qed
    with u ih show ?thesis by simp
  qed
qed

lemma sample_loop_log:
  "sample_loop w3 ns bf s f = (f', r) \<Longrightarrow>
     \<exists>xs ys. ns = xs @ ys \<and> f' = f @ xs \<and> (\<not> isl r \<longrightarrow> ys = [])"
proof (induction ns arbitrary: bf s f)
  case Nil
  then show ?case by auto
next
  case (Cons n ns)
  have step: "\<exists>xs ys. n # ns = xs @ ys \<and> f' = f @ xs \<and> (\<not> isl r \<longrightarrow> ys = [])"
    if "sample_loop w3 ns bf' s' (f @ [n]) = (f', r)" for bf' s'
  proof -
    from Cons.IH [OF that] obtain xs ys where
      "ns = xs @ ys" "f' = (f @ [n]) @ xs" "\<not> isl r \<longrightarrow> ys = []" by blast
    then have "n # ns = (n # xs) @ ys \<and> f' = f @ (n # xs) \<and> (\<not> isl r \<longrightarrow> ys = [])" by simp
    then show ?thesis by blast
  qed
  show ?case
  proof (cases "get_block w3 n")
    case None
    with Cons.prems show ?thesis by (intro step) simp
  next
    case (Some blk)
    let ?v = "case baseFeePerGas blk of None \<Rightarrow> 0 | Some v \<Rightarrow> v"
    show ?thesis
    proof (cases "?v = 0")
      case True
      with Some Cons.prems show ?thesis by (intro step) (simp add: Let_def)
    next
      case False
      show ?thesis
      proof (cases "from_wei_gwei ?v")
        case (Inl e)
        with Some False Cons.prems have "f' = f @ [n]" "isl r" by (auto simp: Let_def)
        then have "n # ns = [n] @ ns \<and> f' = f @ [n] \<and> (\<not> isl r \<longrightarrow> ns = [])" by simp
        then show ?thesis by blast
      next
        case (Inr g)
        with Some False Cons.prems show ?thesis by (intro step) (simp add: Let_def)
      qed
    qed
  qed
qed

lemma sample_loop_returns:
  assumes "\<forall>n blk v. get_block w3 n = Some blk \<and> baseFeePerGas blk = Some v \<longrightarrow> 0 \<le> v \<and> v \<le> 2 ^ 256 - 1"
  shows "\<not> isl (snd (sample_loop w3 ns bf s f))"
proof (induction ns arbitrary: bf s f)
  case Nil
  show ?case by simp
next
  case (Cons n ns)
  show ?case
  proof (cases "get_block w3 n")
    case None
    then show ?thesis using Cons.IH by simp
  next
    case (Some blk)
    show ?thesis
    proof (cases "baseFeePerGas blk")
      case None
      with Some show ?thesis using Cons.IH by simp
    next
      case (Some v)
      with \<open>get_block w3 n = Some blk\<close> assms have "0 \<le> v \<and> v \<le> 2 ^ 256 - 1" by blast
      then have "v \<noteq> 0 \<Longrightarrow> from_wei_gwei v = Inr (of_int v / 10 ^ 9)"
        by (simp add: from_wei_gwei_def)
      with Some \<open>get_block w3 n = Some blk\<close> show ?thesis
        using Cons.IH by (cases "v = 0") (simp_all add: Let_def)
    qed
  qed
qed

lemma sample_base_fees_log:
  assumes "block_number w3 = Some k" "0 < st"
  shows "\<exists>xs ys. range_down (int k) (max 0 (int k - blocks + 1) - 1) (- st) = xs @ ys
           \<and> fst (sample_base_fees w3 blocks st) = xs
           \<and> (\<not> isl (snd (sample_base_fees w3 blocks st)) \<longrightarrow> ys = [])"
proof -
  let ?L = "range_down (int k) (max 0 (int k - blocks + 1) - 1) (- st)"
  obtain f r where r: "sample_loop w3 ?L [] 0 [] = (f, r)" by (cases "sample_loop w3 ?L [] 0 []")
  from sample_loop_log [OF r] obtain xs ys where
    x: "?L = xs @ ys" "f = xs" "\<not> isl r \<longrightarrow> ys = []" by auto
  have "fst (sample_base_fees w3 blocks st) = f"
    using assms r by (cases r) (auto simp: sample_base_fees_def Let_def py_range_down)
  moreover have "isl (snd (sample_base_fees w3 blocks st)) = isl r"
    using assms r by (cases r) (auto simp: sample_base_fees_def Let_def py_range_down)
  ultimately show ?thesis using x by blast
qed

lemma sample_base_fees_returns:
  assumes "block_number w3 = Some k" "0 < st"
    and "\<forall>n blk v. get_block w3 n = Some blk \<and> baseFeePerGas blk = Some v \<longrightarrow> 0 \<le> v \<and> v \<le> 2 ^ 256 - 1"
  shows "\<not> isl (snd (sample_base_fees w3 blocks st))"
proof -
  let ?L = "range_down (int k) (max 0 (int k - blocks + 1) - 1) (- st)"
  obtain f r where r: "sample_loop w3 ?L [] 0 [] = (f, r)" by (cases "sample_loop w3 ?L [] 0 []")
  have "\<not> isl r" using sample_loop_returns [OF assms(3), of ?L "[]" 0 "[]"] r by simp
  moreover have "isl (snd (sample_base_fees w3 blocks st)) = isl r"
    using assms r by (cases r) (auto simp: sample_base_fees_def Let_def py_range_down)
  ultimately show ?thesis by simp
qed

lemma prefix_of_progression:
  assumes "L = map g [0..<length L]" "L = xs @ ys"
  shows "xs = map g [0..<length xs]"
proof -
  have le: "0 + length xs \<le> length L" using assms(2) by simp
  have "xs = take (length xs) L" using assms(2) by simp
  also have "\<dots> = take (length xs) (map g [0..<length L])" using assms(1) by simp
  also have "\<dots> = map g (take (length xs) [0..<length L])" by (rule take_map)
  also have "take (length xs) [0..<length L] = [0..<0 + length xs]" by (rule take_upt [OF le])
  finally show ?thesis by simp
qed

lemma range_down_example: "range_down 100 90 (- 5) = [100, 95]"
  by code_simp

subsection \<open>The loop over the endpoints\<close>

lemma main_rpc_list:
  "main net rpc_urls a =
     (if arg_blocks a \<le> 0 \<or> arg_step a \<le> 0 then ([], Exit 1 Bad_blocks_step)
      else if rpc_list_of rpc_urls a = [] then ([], Exit 1 No_rpc_endpoints)
      else (case analyze_loop net a (rpc_list_of rpc_urls a) [] [] of
              (contacted, Inl (code, msg)) \<Rightarrow> (contacted, Exit code msg)
            | (contacted, Inr eps) \<Rightarrow>
                if eps = [] then (contacted, Exit 2 No_endpoints_analyzed)
                else (contacted, Report (group_by_chain eps (arg_tolerance_pct a)))))"
  unfolding main_def rpc_list_of_def Let_def by (rule refl)

lemma analyze_endpoint_SystemExit:
  "analyze_endpoint net rpc blocks st timeout = Inl (SystemExit code msg) \<longleftrightarrow>
     \<not> is_connected (net rpc timeout) \<and> code = 1 \<and> msg = Failed_to_connect rpc"
proof (cases "is_connected (net rpc timeout)")
  case False
  then show ?thesis by (auto simp: analyze_endpoint_def connect_def)
next
  case True
  have a: "sample_loop w ns bf s f = (f', Inl e) \<Longrightarrow> e = Exception ''ValueError''"
    for w ns bf s f f' e
    by (induction ns arbitrary: bf s f)
      (auto simp: Let_def from_wei_gwei_def split: option.splits if_splits sum.splits)
  have b: "snd (sample_base_fees w blocks st) \<noteq> Inl (SystemExit code msg)" for w
    by (auto simp: sample_base_fees_def Let_def split: option.splits sum.splits prod.splits dest: a)
  from True show ?thesis
    using b [of "net rpc timeout"]
    by (auto simp: analyze_endpoint_def connect_def Let_def split: option.splits sum.splits prod.splits)
qed

lemma analyze_loop_connected:
  "\<forall>r\<in>set rpcs. is_connected (net r (arg_timeout a)) \<Longrightarrow>
     analyze_loop net a rpcs eps lg = (lg @ rpcs, Inr (eps @ analyzed net a rpcs))"
proof (induction rpcs arbitrary: eps lg)
  case Nil
  show ?case by (simp add: analyzed_def)
next
  case (Cons rpc rest)
  then have c: "is_connected (net rpc (arg_timeout a))"
    and r: "\<forall>r\<in>set rest. is_connected (net r (arg_timeout a))" by simp_all
  show ?case
  proof (cases "analyze_endpoint net rpc (arg_blocks a) (arg_step a) (arg_timeout a)")
    case (Inr s)
    then show ?thesis using Cons.IH [OF r] by (simp add: analyzed_def)
  next
    case (Inl e)
    show ?thesis
    proof (cases e)
      case (SystemExit code msg)
      with Inl c show ?thesis by (simp add: analyze_endpoint_SystemExit)
    next
      case (Exception x)
      with Inl show ?thesis using Cons.IH [OF r] by (simp add: analyzed_def)
    qed
  qed
qed

lemma analyze_loop_unreachable:
  assumes "\<forall>x\<in>set pre. is_connected (net x (arg_timeout a))"
    and "\<not> is_connected (net r (arg_timeout a))"
  shows "analyze_loop net a (pre @ r # post) eps lg = (lg @ pre @ [r], Inl (1, Failed_to_connect r))"
  using assms(1)
proof (induction pre arbitrary: eps lg)
  case Nil
  have "analyze_endpoint net r (arg_blocks a) (arg_step a) (arg_timeout a)
        = Inl (SystemExit 1 (Failed_to_connect r))"
    using assms(2) by (simp add: analyze_endpoint_SystemExit)
  then show ?case by simp
next
  case (Cons rpc rest)
  then have c: "is_connected (net rpc (arg_timeout a))"
    and r: "\<forall>x\<in>set rest. is_connected (net x (arg_timeout a))" by simp_all
  show ?case
  proof (cases "analyze_endpoint net rpc (arg_blocks a) (arg_step a) (arg_timeout a)")
    case (Inr s)
    then show ?thesis using Cons.IH [OF r] by simp
  next
    case (Inl e)
    show ?thesis
    proof (cases e)
      case (SystemExit code msg)
      with Inl c show ?thesis by (simp add: analyze_endpoint_SystemExit)
    next
      case (Exception x)
      with Inl show ?thesis using Cons.IH [OF r] by simp
    qed
  qed
qed

lemma main_Report_medians:
  assumes "main net rpc_urls a = (lg, Report gs)"
  obtains eps where "gs = group_by_chain eps (arg_tolerance_pct a)"
    "\<forall>x\<in>set eps. 0 \<le> baseFeeMedianGwei x"
proof -
  from assms obtain eps where gs: "gs = group_by_chain eps (arg_tolerance_pct a)"
    and an: "\<forall>s\<in>set eps. \<exists>rpc.
      analyze_endpoint net rpc (arg_blocks a) (arg_step a) (arg_timeout a) = Inr s"
    by (rule main_Report)
  have "\<forall>x\<in>set eps. 0 \<le> baseFeeMedianGwei x"
    using an analyze_endpoint_median_nonneg by blast
  with gs that show ?thesis by blast
qed

subsection \<open>The example runs\<close>

lemma ex_analyze_a: "analyze_endpoint ex_net ''a'' 10 5 20 = Inr ex_summary_a"
  by code_simp

lemma ex_analyze_b: "analyze_endpoint ex_net ''b'' 10 5 20 = Inr ex_summary_b"
  by code_simp

lemma ex_main_b0:
  "main ex_net [] (ex_args [''b''] 0)
   = ([''b''], Report [(1, \<lparr>endpoints = [ex_summary_b\<lparr>deviationPct := Some 0, isOutlier := Some True\<rparr>],
                            globalMedianBaseFeeGwei = 0\<rparr>)])"
  by code_simp

lemma ex_main_ab:
  "main ex_net [] (ex_args ['' a'', ''d'', ''e '', ''b''] 30)
   = ([''a'', ''d'', ''e'', ''b''], Report [(1, \<lparr>endpoints = [ex_summary_a\<lparr>deviationPct := Some 0, isOutlier := Some False\<rparr>,
 ex_summary_a\<lparr>rpcUrl := ''e'', head := 100, sampledBlocks := 0, baseFeeMedianGwei := 0, baseFeeMinGwei := 0, baseFeeMaxGwei := 0, headBaseFeeGwei := None, deviationPct := Some 0, isOutlier := Some False\<rparr>,
 ex_summary_b\<lparr>deviationPct := Some 0, isOutlier := Some False\<rparr>],
                            globalMedianBaseFeeGwei = 195 / 2\<rparr>)])"
  by code_simp

lemma ex_main_c:
  "main ex_net [] (ex_args [''a'', ''c'', ''b''] 30) = ([''a'', ''c''], Exit 1 (Failed_to_connect ''c''))"
  by code_simp

lemma ex_main_d:
  "main ex_net [] (ex_args [''d'', ''d''] 30) = ([''d'', ''d''], Exit 2 No_endpoints_analyzed)"
  by code_simp

lemma ex_main_neg:
  "main ex_net [] (ex_args [''a''] (- 1))
   = ([''a''], Report [(1, \<lparr>endpoints = [ex_summary_a\<lparr>deviationPct := Some 0, isOutlier := Some True\<rparr>],
                            globalMedianBaseFeeGwei = 195 / 2\<rparr>)])"
  by code_simp

section \<open>The claims\<close>

subsection \<open>C3: the outlier flag\<close>




subsection \<open>C8: the deviation\<close>



subsection \<open>C5: the consensus of a group\<close>



subsection \<open>C7: the statistics of a summary\<close>

text \<open>
  C7. For every summary that \<^verbatim>\<open>analyze_endpoint\<close> returns: when the count of usable
  observations is greater than 0, the reported minimum, median and maximum are in that
  order; when the count is 0, all three are 0.
\<close>

theorem summary_statistics_ordered:
  assumes "analyze_endpoint net rpc blocks st timeout = Inr s"
  shows "(0 < sampledBlocks s \<longrightarrow>
            baseFeeMinGwei s \<le> baseFeeMedianGwei s \<and> baseFeeMedianGwei s \<le> baseFeeMaxGwei s)
       \<and> (sampledBlocks s = 0 \<longrightarrow>
            baseFeeMedianGwei s = 0 \<and> baseFeeMinGwei s = 0 \<and> baseFeeMaxGwei s = 0)"
proof -
  from assms obtain bf where
    sm: "snd (sample_base_fees (net rpc timeout) blocks st) = Inr (bf, head s, start s, sampledBlocks s)"
    and f: "baseFeeMedianGwei s = py_round (fst (window_stats bf)) 3"
      "baseFeeMinGwei s = py_round (fst (snd (window_stats bf))) 3"
      "baseFeeMaxGwei s = py_round (snd (snd (window_stats bf))) 3"
    by (rule analyze_endpoint_Inr)
  from sm have n: "sampledBlocks s = int (length bf)"
    by (rule sample_base_fees_Inr)
  obtain med mn mx where ws: "window_stats bf = (med, mn, mx)" by (cases "window_stats bf")
  from window_stats_ordered [OF ws] have "mn \<le> med" "med \<le> mx" by simp_all
  then have "baseFeeMinGwei s \<le> baseFeeMedianGwei s" "baseFeeMedianGwei s \<le> baseFeeMaxGwei s"
    using f ws by (simp_all add: py_round_mono)
  moreover have "sampledBlocks s = 0 \<longrightarrow>
      baseFeeMedianGwei s = 0 \<and> baseFeeMinGwei s = 0 \<and> baseFeeMaxGwei s = 0"
    using n f by simp
  ultimately show ?thesis by simp
qed

theorem summary_statistics_ordered_witness:
  "analyze_endpoint ex_net ''a'' 10 5 20 = Inr ex_summary_a
   \<and> 0 < sampledBlocks ex_summary_a
   \<and> baseFeeMinGwei ex_summary_a \<le> baseFeeMedianGwei ex_summary_a
   \<and> baseFeeMedianGwei ex_summary_a \<le> baseFeeMaxGwei ex_summary_a"
proof -
  have h: "analyze_endpoint ex_net ''a'' 10 5 20 = Inr ex_summary_a"
    by (rule ex_analyze_a)
  have n: "0 < sampledBlocks ex_summary_a"
    by (simp add: ex_summary_a_def)
  show ?thesis
    using h n summary_statistics_ordered [OF h] by simp
qed

subsection \<open>C10: the fee of the head block\<close>

text \<open>
  C10. For every summary of an endpoint (sampled with a positive span and stride, as
  \<^verbatim>\<open>main\<close> ensures), \<^verbatim>\<open>headBaseFeeGwei\<close> is \<^verbatim>\<open>None\<close> exactly when the fetch of the head
  block fails; when the fetch succeeds and the block's \<^verbatim>\<open>baseFeePerGas\<close> is absent or
  zero, the reported value is 0, as for a block whose fee is zero.
\<close>

theorem head_fee_null_iff_fetch_fails:
  assumes "analyze_endpoint net rpc blocks st timeout = Inr s" "0 < blocks" "0 < st"
  shows "(headBaseFeeGwei s = None \<longleftrightarrow> get_block (net rpc timeout) (head s) = None)
       \<and> (\<forall>blk. get_block (net rpc timeout) (head s) = Some blk
                 \<and> (baseFeePerGas blk = None \<or> baseFeePerGas blk = Some 0)
               \<longrightarrow> headBaseFeeGwei s = Some 0)"
proof -
  let ?w = "net rpc timeout"
  from assms(1) obtain bf where
    sm: "snd (sample_base_fees ?w blocks st) = Inr (bf, head s, start s, sampledBlocks s)"
    and hf: "headBaseFeeGwei s = map_option (\<lambda>g. py_round g 3) (head_base_fee ?w (head s))"
    by (rule analyze_endpoint_Inr)
  from sm obtain k ns f where k: "head s = int k" "start s = max 0 (head s - blocks + 1)"
    and ns: "py_range (head s) (start s - 1) (- st) = Some ns"
    and lp: "sample_loop ?w ns [] 0 [] = (f, Inr (bf, sampledBlocks s))"
    by (rule sample_base_fees_Inr)
  have "start s - 1 < head s" using k assms(2) by simp
  then have "ns = head s # range_down (head s - st) (start s - 1) (- st)"
    using ns assms(3) by (simp add: py_range_down range_down_first)
  with lp have lp': "sample_loop ?w (head s # range_down (head s - st) (start s - 1) (- st)) [] 0 []
                      = (f, Inr (bf, sampledBlocks s))"
    by simp
  show ?thesis
  proof (cases "get_block ?w (head s)")
    case None
    then show ?thesis using hf by (simp add: head_base_fee_def)
  next
    case (Some blk)
    from sample_loop_head_ok [OF lp' Some] obtain g where
      g: "from_wei_gwei (case baseFeePerGas blk of None \<Rightarrow> 0 | Some v \<Rightarrow> v) = Inr g"
      by blast
    have "headBaseFeeGwei s = Some (py_round g 3)"
      using hf Some g by (simp add: head_base_fee_def)
    moreover have "baseFeePerGas blk = None \<or> baseFeePerGas blk = Some 0 \<Longrightarrow> g = 0"
      using g by auto
    ultimately show ?thesis using Some by auto
  qed
qed

theorem head_fee_null_iff_fetch_fails_witness:
  "analyze_endpoint ex_net ''b'' 10 5 20 = Inr ex_summary_b
   \<and> get_block (ex_net ''b'' 20) (head ex_summary_b) = Some \<lparr>baseFeePerGas = None\<rparr>
   \<and> headBaseFeeGwei ex_summary_b = Some 0"
proof -
  have h: "analyze_endpoint ex_net ''b'' 10 5 20 = Inr ex_summary_b"
    by (rule ex_analyze_b)
  have g: "get_block (ex_net ''b'' 20) (head ex_summary_b) = Some \<lparr>baseFeePerGas = None\<rparr>"
    by (simp add: ex_net_def ex_node_def)
  have "headBaseFeeGwei ex_summary_b = Some 0"
    using head_fee_null_iff_fetch_fails [OF h, of ] g by simp
  with h g show ?thesis by simp
qed

subsection \<open>C4: an endpoint without observations\<close>

text \<open>
  C4, as amended. In every report, a summary with \<^verbatim>\<open>sampledBlocks = 0\<close> has median,
  minimum and maximum 0 and a deviation of 0, whatever the other endpoints report; its
  flag \<^verbatim>\<open>isOutlier\<close> is the outcome of the inclusive comparison of 0 with the
  tolerance: false for every positive tolerance, true for a tolerance of 0 or below.
\<close>

theorem zero_sample_summary:
  assumes "main net rpc_urls a = (lg, Report gs)"
    and "(cid, grp) \<in> set gs" "e \<in> set (endpoints grp)" "sampledBlocks e = 0"
  shows "baseFeeMedianGwei e = 0 \<and> baseFeeMinGwei e = 0 \<and> baseFeeMaxGwei e = 0
       \<and> deviationPct e = Some 0
       \<and> isOutlier e = Some (arg_tolerance_pct a \<le> 0)"
proof -
  from assms(1) obtain eps where gs: "gs = group_by_chain eps (arg_tolerance_pct a)"
    and an: "\<forall>s\<in>set eps. \<exists>rpc. analyze_endpoint net rpc (arg_blocks a) (arg_step a) (arg_timeout a) = Inr s"
    by (rule main_Report)
  from assms(2,3) gs obtain e0 where e0: "e0 \<in> set eps"
    "e = annotate (group_median (endpoints grp)) (arg_tolerance_pct a) e0"
    using group_member_elem by blast
  from an e0(1) obtain rpc where
    "analyze_endpoint net rpc (arg_blocks a) (arg_step a) (arg_timeout a) = Inr e0" by blast
  from summary_statistics_zero [OF this] assms(4) e0(2)
  have z: "baseFeeMedianGwei e0 = 0" "baseFeeMinGwei e0 = 0" "baseFeeMaxGwei e0 = 0"
    by simp_all
  then show ?thesis
    using e0(2) by (simp add: annotate_def deviation_def Let_def)
qed

theorem zero_sample_summary_witness:
  "main ex_net [] (ex_args ['' a'', ''d'', ''e '', ''b''] 30)
     = ([''a'', ''d'', ''e'', ''b''], Report [(1, ex_report_group)])
   \<and> endpoints ex_report_group ! 2 \<in> set (endpoints ex_report_group)
   \<and> sampledBlocks (endpoints ex_report_group ! 2) = 0
   \<and> baseFeeMedianGwei (endpoints ex_report_group ! 2) = 0
   \<and> baseFeeMinGwei (endpoints ex_report_group ! 2) = 0
   \<and> baseFeeMaxGwei (endpoints ex_report_group ! 2) = 0
   \<and> deviationPct (endpoints ex_report_group ! 2) = Some 0
   \<and> isOutlier (endpoints ex_report_group ! 2) = Some False"
proof -
  have h1: "main ex_net [] (ex_args ['' a'', ''d'', ''e '', ''b''] 30)
     = ([''a'', ''d'', ''e'', ''b''], Report [(1, ex_report_group)])"
    unfolding ex_report_group_def by (rule ex_main_ab)
  have h2: "(1, ex_report_group) \<in> set [(1, ex_report_group)]"
    by simp
  have h3: "endpoints ex_report_group ! 2 \<in> set (endpoints ex_report_group)"
    by (simp add: ex_report_group_def)
  have h4: "sampledBlocks (endpoints ex_report_group ! 2) = 0"
    by (simp add: ex_report_group_def ex_summary_b_def)
  have t: "arg_tolerance_pct (ex_args ['' a'', ''d'', ''e '', ''b''] 30) = 30"
    by (simp add: ex_args_def)
  show ?thesis
    using h1 h3 h4 zero_sample_summary [OF h1 h2 h3 h4] by (simp add: t)
qed

text \<open>
  C4 as stated fails for a tolerance of 0: the endpoint \<open>b\<close>, alone in its run, has no
  observation and is flagged.
\<close>

theorem zero_sample_flagged_counterexample:
  "main ex_net [] (ex_args [''b''] 0)
     = ([''b''], Report [(1, \<lparr>endpoints = [ex_summary_b\<lparr>deviationPct := Some 0, isOutlier := Some True\<rparr>],
                              globalMedianBaseFeeGwei = 0\<rparr>)])
   \<and> sampledBlocks (ex_summary_b\<lparr>deviationPct := Some 0, isOutlier := Some True\<rparr>) = 0
   \<and> isOutlier (ex_summary_b\<lparr>deviationPct := Some 0, isOutlier := Some True\<rparr>) = Some True"
  using ex_main_b0 by (simp add: ex_summary_b_def)

subsection \<open>C2: rejected configurations\<close>

text \<open>
  C2, as amended. A configuration with \<^verbatim>\<open>blocks \<le> 0\<close> or \<^verbatim>\<open>step \<le> 0\<close> is rejected with
  exit status 1 before any endpoint is contacted. (The tolerance is not examined.)
\<close>

theorem bad_blocks_or_step_rejected:
  assumes "arg_blocks a \<le> 0 \<or> arg_step a \<le> 0"
  shows "main net rpc_urls a = ([], Exit 1 Bad_blocks_step)"
  using assms by (simp add: main_def)

theorem bad_blocks_or_step_rejected_witness:
  "arg_step ((ex_args [''a''] 30)\<lparr>arg_step := 0\<rparr>) = 0
   \<and> main ex_net [] ((ex_args [''a''] 30)\<lparr>arg_step := 0\<rparr>) = ([], Exit 1 Bad_blocks_step)"
proof -
  have h: "arg_blocks ((ex_args [''a''] 30)\<lparr>arg_step := 0\<rparr>) \<le> 0
           \<or> arg_step ((ex_args [''a''] 30)\<lparr>arg_step := 0\<rparr>) \<le> 0"
    by simp
  show ?thesis
    using bad_blocks_or_step_rejected [OF h, of ex_net "[]"] by simp
qed

text \<open>
  C2 as stated fails for a negative tolerance: the run contacts the endpoint and
  reports its group.
\<close>

theorem negative_tolerance_accepted_counterexample:
  "arg_tolerance_pct (ex_args [''a''] (- 1)) < 0
   \<and> main ex_net [] (ex_args [''a''] (- 1))
     = ([''a''], Report [(1, \<lparr>endpoints = [ex_summary_a\<lparr>deviationPct := Some 0, isOutlier := Some True\<rparr>],
                              globalMedianBaseFeeGwei = 195 / 2\<rparr>)])"
  using ex_main_neg by (simp add: ex_args_def)

subsection \<open>C1: endpoints that fail\<close>

text \<open>
  C1, as amended. In a run with valid parameters and at least one URL: when every
  endpoint passes the connection check, the endpoints whose analysis raises an error
  (the chain id cannot be read, for instance) are left out of the results, all
  endpoints are contacted, and the run reports the groups of the others; only when
  every endpoint fails this way does it end with the hard failure of exit status 2. An
  endpoint that fails the connection check ends the run at once with exit status 1,
  and the endpoints after it are not contacted.
\<close>

theorem failed_endpoints_skipped_unreachable_fatal:
  assumes "0 < arg_blocks a" "0 < arg_step a" "rpc_list_of rpc_urls a = rpcs" "rpcs \<noteq> []"
  shows "((\<forall>r\<in>set rpcs. is_connected (net r (arg_timeout a))) \<longrightarrow>
            main net rpc_urls a =
              (rpcs, if analyzed net a rpcs = [] then Exit 2 No_endpoints_analyzed
                     else Report (group_by_chain (analyzed net a rpcs) (arg_tolerance_pct a))))
       \<and> (\<forall>pre r post. rpcs = pre @ r # post
              \<and> (\<forall>x\<in>set pre. is_connected (net x (arg_timeout a)))
              \<and> \<not> is_connected (net r (arg_timeout a)) \<longrightarrow>
            main net rpc_urls a = (pre @ [r], Exit 1 (Failed_to_connect r)))"
proof (intro conjI impI allI)
  assume c: "\<forall>r\<in>set rpcs. is_connected (net r (arg_timeout a))"
  have "analyze_loop net a rpcs [] [] = ([] @ rpcs, Inr ([] @ analyzed net a rpcs))"
    using c by (rule analyze_loop_connected)
  with assms show "main net rpc_urls a =
          (rpcs, if analyzed net a rpcs = [] then Exit 2 No_endpoints_analyzed
                 else Report (group_by_chain (analyzed net a rpcs) (arg_tolerance_pct a)))"
    by (simp add: main_rpc_list)
next
  fix pre r post
  assume h: "rpcs = pre @ r # post \<and> (\<forall>x\<in>set pre. is_connected (net x (arg_timeout a)))
             \<and> \<not> is_connected (net r (arg_timeout a))"
  then have "analyze_loop net a rpcs [] [] = (pre @ [r], Inl (1, Failed_to_connect r))"
    using analyze_loop_unreachable [of pre net a r post "[]" "[]"] by simp
  with assms show "main net rpc_urls a = (pre @ [r], Exit 1 (Failed_to_connect r))"
    by (simp add: main_rpc_list)
qed

theorem failed_endpoints_skipped_unreachable_fatal_witness:
  "rpc_list_of [] (ex_args ['' a'', ''d'', ''e '', ''b''] 30) = [''a'', ''d'', ''e'', ''b'']
   \<and> chain_id (ex_net ''d'' 20) = None
   \<and> map rpcUrl (analyzed ex_net (ex_args ['' a'', ''d'', ''e '', ''b''] 30) [''a'', ''d'', ''e'', ''b''])
       = [''a'', ''e'', ''b'']
   \<and> main ex_net [] (ex_args ['' a'', ''d'', ''e '', ''b''] 30)
       = ([''a'', ''d'', ''e'', ''b''],
          Report (group_by_chain
            (analyzed ex_net (ex_args ['' a'', ''d'', ''e '', ''b''] 30) [''a'', ''d'', ''e'', ''b''])
            30))
   \<and> rpc_list_of [] (ex_args [''a'', ''c'', ''b''] 30) = [''a''] @ ''c'' # [''b'']
   \<and> \<not> is_connected (ex_net ''c'' 20)
   \<and> main ex_net [] (ex_args [''a'', ''c'', ''b''] 30) = ([''a''] @ [''c''], Exit 1 (Failed_to_connect ''c''))"
proof -
  let ?a = "ex_args ['' a'', ''d'', ''e '', ''b''] 30"
  let ?rpcs = "[''a'', ''d'', ''e'', ''b'']"
  have h1: "0 < arg_blocks ?a" and h2: "0 < arg_step ?a" and t: "arg_timeout ?a = 20"
    and tl: "arg_tolerance_pct ?a = 30"
    by (simp_all add: ex_args_def)
  have h3: "rpc_list_of [] ?a = ?rpcs"
    by code_simp
  have h4: "?rpcs \<noteq> []"
    by simp
  have c: "\<forall>r\<in>set ?rpcs. is_connected (ex_net r (arg_timeout ?a))"
    by (simp add: ex_net_def ex_node_def)
  have d: "chain_id (ex_net ''d'' 20) = None"
    by (simp add: ex_net_def ex_node_def)
  have u: "map rpcUrl (analyzed ex_net ?a ?rpcs) = [''a'', ''e'', ''b'']"
    by code_simp
  then have ne: "analyzed ex_net ?a ?rpcs \<noteq> []"
    by auto
  have m: "main ex_net [] ?a = (?rpcs, Report (group_by_chain (analyzed ex_net ?a ?rpcs) 30))"
    using failed_endpoints_skipped_unreachable_fatal
      [OF h1 h2 h3 h4, of ex_net, THEN conjunct1, THEN mp, OF c]
    by (simp only: ne tl if_False)
  let ?b = "ex_args [''a'', ''c'', ''b''] 30"
  have k1: "0 < arg_blocks ?b" and k2: "0 < arg_step ?b" and t': "arg_timeout ?b = 20"
    by (simp_all add: ex_args_def)
  have k3: "rpc_list_of [] ?b = [''a''] @ ''c'' # [''b'']"
    by code_simp
  have k4: "[''a''] @ ''c'' # [''b''] \<noteq> []"
    by simp
  have p: "\<forall>x\<in>set [''a'']. is_connected (ex_net x (arg_timeout ?b))"
    by (simp add: ex_net_def ex_node_def)
  have n: "\<not> is_connected (ex_net ''c'' 20)"
    by (simp add: ex_net_def ex_node_def)
  have n': "\<not> is_connected (ex_net ''c'' (arg_timeout ?b))"
    using n by (simp add: t')
  have x: "main ex_net [] ?b = ([''a''] @ [''c''], Exit 1 (Failed_to_connect ''c''))"
    by (rule failed_endpoints_skipped_unreachable_fatal
      [OF k1 k2 k3 k4, of ex_net, THEN conjunct2, THEN spec [where x = "[''a'']"],
        THEN spec [where x = "''c''"], THEN spec [where x = "[''b'']"], THEN mp])
      (intro conjI refl p n')
  show ?thesis
    by (intro conjI) (rule h3, rule d, rule u, rule m, rule k3, rule n, rule x)
qed

text \<open>
  C1 as stated fails: of three endpoints, the second fails the connection check; the
  run ends with exit status 1, the third endpoint is never contacted and the result of
  the first is dropped.
\<close>

theorem unreachable_endpoint_ends_run_counterexample:
  "analyze_endpoint ex_net ''a'' 10 5 20 = Inr ex_summary_a
   \<and> analyze_endpoint ex_net ''b'' 10 5 20 = Inr ex_summary_b
   \<and> \<not> is_connected (ex_net ''c'' 20)
   \<and> main ex_net [] (ex_args [''a'', ''c'', ''b''] 30)
       = ([''a'', ''c''], Exit 1 (Failed_to_connect ''c''))"
  using ex_analyze_a ex_analyze_b ex_main_c by (simp add: ex_net_def ex_node_def)

subsection \<open>C6: the sampled window\<close>

text \<open>
  C6. For an endpoint at height \<open>h\<close>, a span \<open>blocks > 0\<close> and a stride \<open>step > 0\<close>, the
  block numbers passed to \<^verbatim>\<open>get_block\<close> are \<open>h, h - step, h - 2 * step, \<dots>\<close> in this
  order, none below the lower bound \<open>max 0 (h - blocks + 1)\<close>; when the sampler returns,
  they are exactly the numbers of this progression that are not below the bound, and
  for \<open>h = 100\<close>, \<open>blocks = 10\<close>, \<open>step = 5\<close> they are 100 and 95. The sampler returns
  whenever no block carries a fee outside the range of the unit conversion.
\<close>

theorem sampler_visits_window:
  assumes "block_number w3 = Some k" "0 < blocks" "0 < st"
  shows "let h = int k; lower = max 0 (h - blocks + 1);
             visited = fst (sample_base_fees w3 blocks st);
             returns = \<not> isl (snd (sample_base_fees w3 blocks st))
         in visited = map (\<lambda>i. h - int i * st) [0..<length visited]
          \<and> (\<forall>n\<in>set visited. lower \<le> n)
          \<and> (returns \<longrightarrow> set visited = {n. lower \<le> n \<and> (\<exists>i::nat. n = h - int i * st)})
          \<and> (returns \<and> k = 100 \<and> blocks = 10 \<and> st = 5 \<longrightarrow> visited = [100, 95])
          \<and> ((\<forall>n blk v. get_block w3 n = Some blk \<and> baseFeePerGas blk = Some v
                  \<longrightarrow> 0 \<le> v \<and> v \<le> 2 ^ 256 - 1) \<longrightarrow> returns)"
proof -
  let ?h = "int k" let ?lower = "max 0 (?h - blocks + 1)"
  let ?L = "range_down ?h (?lower - 1) (- st)"
  let ?visited = "fst (sample_base_fees w3 blocks st)"
  let ?returns = "\<not> isl (snd (sample_base_fees w3 blocks st))"
  have neg: "- st < 0" using assms(3) by simp
  have Lmap: "?L = map (\<lambda>i. ?h - int i * st) [0..<length ?L]"
    using range_down_map [OF neg, of ?h "?lower - 1"] by (simp add: algebra_simps)
  have Lset: "set ?L = {n. ?lower \<le> n \<and> (\<exists>i::nat. n = ?h - int i * st)}"
    using range_down_set [OF neg, of ?h "?lower - 1"] by (auto simp: algebra_simps)
  obtain ys where v: "?L = ?visited @ ys" "?returns \<longrightarrow> ys = []"
    using sample_base_fees_log [OF assms(1,3), of blocks] by blast
  have a: "?visited = map (\<lambda>i. ?h - int i * st) [0..<length ?visited]"
    by (rule prefix_of_progression [OF Lmap v(1)])
  have "set ?visited \<subseteq> set ?L" using v(1) by (metis set_append Un_upper1)
  then have b: "\<forall>n\<in>set ?visited. ?lower \<le> n" using Lset by blast
  have full: "?returns \<longrightarrow> ?visited = ?L" using v by simp
  then have c: "?returns \<longrightarrow> set ?visited = {n. ?lower \<le> n \<and> (\<exists>i::nat. n = ?h - int i * st)}"
    using Lset by simp
  have d: "?returns \<and> k = 100 \<and> blocks = 10 \<and> st = 5 \<longrightarrow> ?visited = [100, 95]"
    using full range_down_example by auto
  have e: "(\<forall>n blk v. get_block w3 n = Some blk \<and> baseFeePerGas blk = Some v
              \<longrightarrow> 0 \<le> v \<and> v \<le> 2 ^ 256 - 1) \<longrightarrow> ?returns"
    using sample_base_fees_returns [OF assms(1,3)] by blast
  show ?thesis
    unfolding Let_def using a b c d e by blast
qed

theorem sampler_visits_window_witness:
  "block_number (ex_net ''a'' 20) = Some 100
   \<and> \<not> isl (snd (sample_base_fees (ex_net ''a'' 20) 10 5))
   \<and> fst (sample_base_fees (ex_net ''a'' 20) 10 5) = [100, 95]
   \<and> set (fst (sample_base_fees (ex_net ''a'' 20) 10 5))
       = {n. max 0 (int 100 - 10 + 1) \<le> n \<and> (\<exists>i::nat. n = int 100 - int i * 5)}"
proof -
  have h1: "block_number (ex_net ''a'' 20) = Some 100"
    by (simp add: ex_net_def ex_node_def)
  have h2: "(0::int) < 10" and h3: "(0::int) < 5"
    by simp_all
  have r: "\<not> isl (snd (sample_base_fees (ex_net ''a'' 20) 10 5))"
    by code_simp
  note t = sampler_visits_window [OF h1 h2 h3, unfolded Let_def]
  have v: "fst (sample_base_fees (ex_net ''a'' 20) 10 5) = [100, 95]"
    using t r by blast
  have s: "set (fst (sample_base_fees (ex_net ''a'' 20) 10 5))
       = {n. max 0 (int 100 - 10 + 1) \<le> n \<and> (\<exists>i::nat. n = int 100 - int i * 5)}"
    using t r by blast
  show ?thesis
    by (intro conjI) (rule h1, rule r, rule v, rule s)
qed

subsection \<open>C9: running the pass twice\<close>

text \<open>
  C9. The members of the groups are the caller's summaries with the two keys written;
  running \<^verbatim>\<open>group_by_chain\<close> again on these summaries with the same tolerance returns
  the same groups and leaves the summaries as they are; and the medians, deviations and
  flags it reports depend only on the chain ids and medians of the summaries and on the
  tolerance.
\<close>

theorem annotation_idempotent_and_pure:
  "(\<forall>(cid, grp)\<in>set (group_by_chain eps tolerance_pct).
      endpoints grp = [e \<leftarrow> annotated eps tolerance_pct. chainId e = cid])
   \<and> group_by_chain (annotated eps tolerance_pct) tolerance_pct = group_by_chain eps tolerance_pct
   \<and> annotated (annotated eps tolerance_pct) tolerance_pct = annotated eps tolerance_pct
   \<and> (map key eps' = map key eps \<longrightarrow>
        verdicts (group_by_chain eps' tolerance_pct) = verdicts (group_by_chain eps tolerance_pct))"
  using group_members_annotated [of _ _ eps tolerance_pct]
  by (auto simp: group_by_chain_annotated annotated_annotated verdicts_keys)

theorem annotation_idempotent_and_pure_witness:
  "group_by_chain (annotated ex_three 30) 30 = group_by_chain ex_three 30
   \<and> annotated (annotated ex_three 30) 30 = annotated ex_three 30
   \<and> map key ex_three_moved = map key ex_three
   \<and> verdicts (group_by_chain ex_three_moved 30) = verdicts (group_by_chain ex_three 30)
   \<and> verdicts (group_by_chain ex_three 30)
       = [(1, 21 / 2, [(Some (- (119 / 25)), Some False), (Some 0, Some False),
                       (Some (5619 / 20), Some True)])]"
proof -
  note t = annotation_idempotent_and_pure [of ex_three 30 ex_three_moved]
  have k: "map key ex_three_moved = map key ex_three"
    by (simp add: ex_three_moved_def ex_three_def ex_summary_def key_def)
  have v: "verdicts (group_by_chain ex_three 30)
       = [(1, 21 / 2, [(Some (- (119 / 25)), Some False), (Some 0, Some False),
                       (Some (5619 / 20), Some True)])]"
    by code_simp
  show ?thesis
    by (intro conjI)
      (rule t [THEN conjunct2, THEN conjunct1],
       rule t [THEN conjunct2, THEN conjunct2, THEN conjunct1],
       rule k,
       rule t [THEN conjunct2, THEN conjunct2, THEN conjunct2, THEN mp, OF k],
       rule v)
qed

end
